theory Spec2Isabelle
  imports Complex_Main
begin

section \<open>Python strings\<close>

text \<open>
  A Python \<open>str\<close> is a sequence of Unicode code points and \<open>len\<close> counts code points,
  so a string is modelled as the list of its code points. The sentence marks of the
  chunker include three CJK characters, which is why bytes would not do.
\<close>

type_synonym ustr = "nat list"

text \<open>
  \<open>is_space\<close> is the set of code points for which \<open>str.isspace\<close> holds; \<open>str.strip()\<close>
  and the class \<open>\s\<close> of \<open>re\<close> (on \<open>str\<close> patterns) both use exactly this set.
\<close>

definition is_space :: "nat \<Rightarrow> bool" where
  "is_space c \<longleftrightarrow>
     (9 \<le> c \<and> c \<le> 13) \<or> (28 \<le> c \<and> c \<le> 32) \<or> c = 133 \<or> c = 160 \<or> c = 5760 \<or>
     (8192 \<le> c \<and> c \<le> 8202) \<or> c = 8232 \<or> c = 8233 \<or> c = 8239 \<or> c = 8287 \<or> c = 12288"

text \<open>
  The character class of the look-behind in \<open>_split_text\<close>: the ideographic full stop
  U+3002, the fullwidth exclamation mark U+FF01, the fullwidth question mark U+FF1F, and
  the ASCII full stop, exclamation mark and question mark.
\<close>

definition is_mark :: "nat \<Rightarrow> bool" where
  "is_mark c \<longleftrightarrow> c = 12290 \<or> c = 65281 \<or> c = 65311 \<or> c = 46 \<or> c = 33 \<or> c = 63"

definition strip :: "ustr \<Rightarrow> ustr" where
  "strip s = rev (dropWhile is_space (rev (dropWhile is_space s)))"

section \<open>The chunker (document\_processor.py)\<close>

text \<open>
  \<open>re.split(r'(?<=[marks])\s*', text)\<close> under the semantics of Python 3.7 and later,
  where an empty match splits too: there is a match right after every sentence mark, it
  swallows the run of whitespace that follows, and the text between two matches is one
  piece. A match at the very end of the text leaves a last, empty piece. The first
  argument is the piece read so far.
\<close>

function re_split :: "ustr \<Rightarrow> ustr \<Rightarrow> ustr list" where
  "re_split cur [] = [cur]"
| "re_split cur (c # cs) =
     (if is_mark c then (cur @ [c]) # re_split [] (dropWhile is_space cs)
      else re_split (cur @ [c]) cs)"
  by pat_completeness auto
termination
  by (relation "measure (\<lambda>(cur, rest). length rest)")
     (auto simp: le_imp_less_Suc length_dropWhile_le)

record document_processor =
  chunk_size :: int
  chunk_overlap :: int

text \<open>
  The body of the \<open>for sentence in sentences\<close> loop of \<open>_split_text\<close>, on the pair of the
  chunks emitted so far and the running buffer \<open>current_chunk\<close>.
\<close>

definition seed_chunk :: "document_processor \<Rightarrow> ustr list \<Rightarrow> ustr \<Rightarrow> ustr" where
  "seed_chunk dp chunks sentence =
     (if chunk_overlap dp > 0 \<and> chunks \<noteq> [] then
        let last_chunk = last chunks;
            overlap_start = max 0 (int (length last_chunk) - chunk_overlap dp)
        in drop (nat overlap_start) last_chunk @ [32] @ sentence @ [32]
      else sentence @ [32])"

fun split_loop :: "document_processor \<Rightarrow> ustr list \<Rightarrow> ustr list \<times> ustr \<Rightarrow> ustr list \<times> ustr" where
  "split_loop dp [] (chunks, current_chunk) = (chunks, current_chunk)"
| "split_loop dp (raw # sentences) (chunks, current_chunk) =
     (let sentence = strip raw in
      if sentence = [] then split_loop dp sentences (chunks, current_chunk)
      else if int (length current_chunk) + int (length sentence) \<le> chunk_size dp then
        split_loop dp sentences (chunks, current_chunk @ sentence @ [32])
      else
        let chunks' = (if current_chunk \<noteq> [] then chunks @ [strip current_chunk] else chunks)
        in split_loop dp sentences (chunks', seed_chunk dp chunks' sentence))"

definition split_text :: "document_processor \<Rightarrow> ustr \<Rightarrow> ustr list" where
  "split_text dp text =
     (let (chunks, current_chunk) = split_loop dp (re_split [] text) ([], [])
      in if current_chunk \<noteq> [] then chunks @ [strip current_chunk] else chunks)"

text \<open>The sentences the loop really works on: the stripped, non-empty pieces.\<close>

definition sentences_of :: "ustr \<Rightarrow> ustr list" where
  "sentences_of text = filter (\<lambda>s. s \<noteq> []) (map strip (re_split [] text))"

text \<open>
  \<open>split_documents\<close>: the chunks of every document in order, each a dictionary with the
  keys \<open>file_name\<close>, \<open>content\<close>, \<open>chunk_id\<close> and \<open>type\<close>; \<open>chunk_id\<close> restarts at 0 for
  every document.
\<close>

datatype doc_type = Txt | Pdf

record document =
  doc_file_name :: string
  doc_content :: ustr
  doc_kind :: doc_type

record chunk =
  file_name :: string
  content :: ustr
  chunk_id :: nat
  kind :: doc_type

definition split_documents :: "document_processor \<Rightarrow> document list \<Rightarrow> chunk list" where
  "split_documents dp documents =
     concat (map (\<lambda>doc. map (\<lambda>(i, c). \<lparr>file_name = doc_file_name doc, content = c,
                                         chunk_id = i, kind = doc_kind doc\<rparr>)
                              (enumerate 0 (split_text dp (doc_content doc))))
                 documents)"

section \<open>Exceptions\<close>

text \<open>
  Every \<open>raise\<close> of the sources, and every exception of a library call that the sources
  let through, is a value of \<open>exc\<close>. The constructors are the Python classes; where one
  class is raised at several places with different messages, the argument tells the
  places apart. All of them are subclasses of \<open>Exception\<close>.
\<close>

datatype runtime_reason =
    FaissUnavailableBuild  \<comment> \<open>\<open>build_index\<close>: FAISS could not be imported\<close>
  | ModelNotInitialized    \<comment> \<open>\<open>build_index\<close>: \<open>self.model\<close> is unset\<close>
  | IndexNotBuilt          \<comment> \<open>\<open>search\<close>: \<open>self.index\<close> is unset\<close>
  | NothingToSave          \<comment> \<open>\<open>save_index\<close>: \<open>self.index\<close> is unset\<close>
  | FaissUnavailableLoad   \<comment> \<open>\<open>load_index\<close>: FAISS could not be imported\<close>
  | FaissIO string         \<comment> \<open>raised by \<open>faiss.write_index\<close> or \<open>faiss.read_index\<close> on the path\<close>

datatype request_failure =
    Timeout | ConnectionFailed
  | HTTPError nat          \<comment> \<open>\<open>raise_for_status\<close> on a 4xx or 5xx status\<close>
  | JSONDecode             \<comment> \<open>\<open>response.json()\<close> of requests 2.27 and later\<close>

datatype value_reason =
    ResponseFormatAbnormal \<comment> \<open>\<open>generate_response\<close>: no non-empty \<open>choices\<close> in the result\<close>
  | NoDocumentsFound       \<comment> \<open>\<open>_build_vector_index\<close>: no document was loaded\<close>

datatype exc =
    RuntimeError runtime_reason
  | FileNotFoundError string
  | PermissionError string
  | OSError string
  | UnpicklingError
  | EOFError
  | IndexError
  | AttributeError
  | NameError
  | AssertionError
  | UnboundLocalError
  | KeyError string
  | ValueError value_reason
  | ModelError ustr                      \<comment> \<open>whatever the embedding model raises\<close>
  | RequestException request_failure     \<comment> \<open>\<open>requests.exceptions.RequestException\<close>\<close>
  | ApiRequestFailed nat exc             \<comment> \<open>"request failed, retried n times: e"\<close>
  | ApiReturnedError ustr                \<comment> \<open>"the API returned an error: message"\<close>
  | ApiParseFailed exc                   \<comment> \<open>"parsing the API response failed: e"\<close>
  | ApiRetriesExhausted                  \<comment> \<open>"call failed, retry limit reached"\<close>

section \<open>The embedding index (vector\_store.py)\<close>

text \<open>
  Vectors and scores are real numbers here; the rounding of 32-bit floats is not
  modelled, and no statement below depends on a computed score.

  The array \<open>model.encode\<close> returns has one or two dimensions: \<open>Arr1 v\<close> has shape
  \<open>(length v,)\<close>, and \<open>Arr2 d rows\<close> has shape \<open>(length rows, d)\<close>. Reading \<open>shape[1]\<close> of a
  one-dimensional array raises \<open>IndexError\<close>.
\<close>

type_synonym vec = "real list"

datatype ndarray = Arr1 vec | Arr2 nat "vec list"

type_synonym encoder = "ustr list \<Rightarrow> exc + ndarray"

text \<open>
  A flat FAISS index: its dimension and the vectors added, in order; \<open>ntotal\<close> is their
  number. The two functions of the library the store calls are parameters:
  \<open>normalize_L2\<close> on one row, and the search of one query vector for the \<open>k\<close> nearest
  stored vectors, which returns pairs of a score and a position (a label).
\<close>

record faiss_index =
  dim :: nat
  vectors :: "vec list"

record faiss_lib =
  normalize_L2 :: "vec \<Rightarrow> vec"
  index_search :: "faiss_index \<Rightarrow> vec \<Rightarrow> int \<Rightarrow> exc + (real \<times> int) list"

text \<open>
  The state of a \<open>VectorStore\<close>. \<open>FAISS_AVAILABLE\<close> is the presence of the library, an
  argument \<open>faiss_lib option\<close> of every operation.
\<close>

record vector_store =
  model :: "encoder option"
  index :: "faiss_index option"
  chunks :: "chunk list"

definition build_index ::
  "faiss_lib option \<Rightarrow> vector_store \<Rightarrow> chunk list \<Rightarrow> vector_store \<times> (exc + unit)" where
  "build_index faiss vs new_chunks =
     (case faiss of
        None \<Rightarrow> (vs, Inl (RuntimeError FaissUnavailableBuild))
      | Some lib \<Rightarrow>
     (case model vs of
        None \<Rightarrow> (vs, Inl (RuntimeError ModelNotInitialized))
      | Some encode \<Rightarrow>
          let texts = map content new_chunks;
              vs1 = vs\<lparr>chunks := new_chunks\<rparr>
          in (case encode texts of
                Inl e \<Rightarrow> (vs1, Inl e)
              | Inr (Arr1 v) \<Rightarrow> (vs1, Inl IndexError)
              | Inr (Arr2 dimension rows) \<Rightarrow>
                  (vs1\<lparr>index := Some \<lparr>dim = dimension, vectors = map (normalize_L2 lib) rows\<rparr>\<rparr>,
                   Inr ()))))"

text \<open>
  \<open>self.chunks[idx]\<close> for a Python integer: a negative index counts from the end, an
  index out of range raises.
\<close>

definition py_index :: "'a list \<Rightarrow> int \<Rightarrow> exc + 'a" where
  "py_index xs i =
     (if 0 \<le> i \<and> i < int (length xs) then Inr (xs ! nat i)
      else if i < 0 \<and> - int (length xs) \<le> i then Inr (xs ! nat (int (length xs) + i))
      else Inl IndexError)"

record search_result =
  hit :: chunk
  similarity_score :: real

text \<open>The loop \<open>for score, idx in zip(scores[0], indices[0])\<close> of \<open>search\<close>.\<close>

fun search_loop :: "chunk list \<Rightarrow> (real \<times> int) list \<Rightarrow> search_result list \<Rightarrow> exc + search_result list" where
  "search_loop cs [] results = Inr results"
| "search_loop cs ((score, idx) # rest) results =
     (if idx < int (length cs) then
        (case py_index cs idx of
           Inl e \<Rightarrow> Inl e
         | Inr chunk_info \<Rightarrow>
             search_loop cs rest (results @ [\<lparr>hit = chunk_info, similarity_score = score\<rparr>]))
      else search_loop cs rest results)"

definition search ::
  "faiss_lib option \<Rightarrow> vector_store \<Rightarrow> ustr \<Rightarrow> int \<Rightarrow> exc + search_result list" where
  "search faiss vs query top_k =
     (case index vs of
        None \<Rightarrow> Inl (RuntimeError IndexNotBuilt)
      | Some ix \<Rightarrow>
     (case model vs of
        None \<Rightarrow> Inl AttributeError
      | Some encode \<Rightarrow>
     (case encode [query] of
        Inl e \<Rightarrow> Inl e
      | Inr query_embedding \<Rightarrow>
     (case faiss of
        None \<Rightarrow> Inl NameError
      | Some lib \<Rightarrow>
     (case query_embedding of
        Arr1 v \<Rightarrow> Inl AssertionError
      | Arr2 dq [] \<Rightarrow> Inl IndexError
      | Arr2 dq (q # qs) \<Rightarrow>
          (case index_search lib ix (normalize_L2 lib q) top_k of
             Inl e \<Rightarrow> Inl e
           | Inr found \<Rightarrow> search_loop (chunks vs) found []))))))"

text \<open>
  The files the store reads and writes. A file holds a serialised index, a pickled
  chunk list, the beginning of a write that did not finish (it may be empty), or
  something else.

  Both \<open>faiss.write_index\<close> and \<open>open(path, 'wb')\<close> followed by \<open>pickle.dump\<close> write
  onto the target file itself. Such a write can go wrong in two ways: the file cannot
  be opened, and then it is as it was; or it is opened, which empties it, and the
  writing fails later (the disk is full, say), and then it is left truncated. Creating
  the directory can be refused too.
\<close>

datatype blob = FaissFile faiss_index | PickleFile "chunk list" | Truncated | Garbage

datatype write_fault = NoFault | OpenFails | WriteFails

record filesystem =
  files :: "string \<Rightarrow> blob option"
  write_fault :: "string \<Rightarrow> write_fault"
  mkdir_denied :: "string \<Rightarrow> bool"

definition path_join :: "string \<Rightarrow> string \<Rightarrow> string" where
  "path_join a b = (if a = [] then b else if last a = CHR ''/'' then a @ b else a @ ''/'' @ b)"

definition path_exists :: "filesystem \<Rightarrow> string \<Rightarrow> bool" where
  "path_exists fs p \<longleftrightarrow> files fs p \<noteq> None"

definition makedirs :: "filesystem \<Rightarrow> string \<Rightarrow> exc + unit" where
  "makedirs fs p = (if mkdir_denied fs p then Inl (PermissionError p) else Inr ())"

definition write_index :: "filesystem \<Rightarrow> faiss_index \<Rightarrow> string \<Rightarrow> filesystem \<times> (exc + unit)" where
  "write_index fs ix p =
     (case write_fault fs p of
        OpenFails \<Rightarrow> (fs, Inl (RuntimeError (FaissIO p)))
      | WriteFails \<Rightarrow> (fs\<lparr>files := (files fs)(p \<mapsto> Truncated)\<rparr>, Inl (RuntimeError (FaissIO p)))
      | NoFault \<Rightarrow> (fs\<lparr>files := (files fs)(p \<mapsto> FaissFile ix)\<rparr>, Inr ()))"

text \<open>\<open>with open(path, 'wb') as f: pickle.dump(cs, f)\<close>.\<close>

definition pickle_dump :: "filesystem \<Rightarrow> chunk list \<Rightarrow> string \<Rightarrow> filesystem \<times> (exc + unit)" where
  "pickle_dump fs cs p =
     (case write_fault fs p of
        OpenFails \<Rightarrow> (fs, Inl (PermissionError p))
      | WriteFails \<Rightarrow> (fs\<lparr>files := (files fs)(p \<mapsto> Truncated)\<rparr>, Inl (OSError p))
      | NoFault \<Rightarrow> (fs\<lparr>files := (files fs)(p \<mapsto> PickleFile cs)\<rparr>, Inr ()))"

definition read_index :: "filesystem \<Rightarrow> string \<Rightarrow> exc + faiss_index" where
  "read_index fs p =
     (case files fs p of Some (FaissFile ix) \<Rightarrow> Inr ix | _ \<Rightarrow> Inl (RuntimeError (FaissIO p)))"

definition pickle_load :: "filesystem \<Rightarrow> string \<Rightarrow> exc + chunk list" where
  "pickle_load fs p =
     (case files fs p of
        None \<Rightarrow> Inl (FileNotFoundError p)
      | Some (PickleFile cs) \<Rightarrow> Inr cs
      | Some Truncated \<Rightarrow> Inl EOFError
      | Some other \<Rightarrow> Inl UnpicklingError)"

definition save_index ::
  "faiss_lib option \<Rightarrow> vector_store \<Rightarrow> filesystem \<Rightarrow> string \<Rightarrow> filesystem \<times> (exc + unit)" where
  "save_index faiss vs fs save_path =
     (case index vs of
        None \<Rightarrow> (fs, Inl (RuntimeError NothingToSave))
      | Some ix \<Rightarrow>
     (case makedirs fs save_path of
        Inl e \<Rightarrow> (fs, Inl e)
      | Inr u \<Rightarrow>
     (case faiss of
        None \<Rightarrow> (fs, Inl NameError)
      | Some lib \<Rightarrow>
     (case write_index fs ix (path_join save_path ''index.faiss'') of
        (fs1, Inl e) \<Rightarrow> (fs1, Inl e)
      | (fs1, Inr u) \<Rightarrow> pickle_dump fs1 (chunks vs) (path_join save_path ''chunks.pkl'')))))"

definition load_index ::
  "faiss_lib option \<Rightarrow> vector_store \<Rightarrow> filesystem \<Rightarrow> string \<Rightarrow> vector_store \<times> (exc + unit)" where
  "load_index faiss vs fs load_path =
     (case faiss of
        None \<Rightarrow> (vs, Inl (RuntimeError FaissUnavailableLoad))
      | Some lib \<Rightarrow>
          let index_path = path_join load_path ''index.faiss'' in
          if \<not> path_exists fs index_path then (vs, Inl (FileNotFoundError index_path))
          else
            (case read_index fs index_path of
               Inl e \<Rightarrow> (vs, Inl e)
             | Inr ix \<Rightarrow>
                 let vs1 = vs\<lparr>index := Some ix\<rparr>;
                     chunks_path = path_join load_path ''chunks.pkl''
                 in (case pickle_load fs chunks_path of
                       Inl e \<Rightarrow> (vs1, Inl e)
                     | Inr cs \<Rightarrow> (vs1\<lparr>chunks := cs\<rparr>, Inr ()))))"

section \<open>The generation client (zhipu\_client.py)\<close>

text \<open>
  The texts sent are kept in their structure: a plain text, the fixed template of
  \<open>rag_chat\<close> around a context and a question, or the default system prompt of \<open>rag_chat\<close>.
  The context is the list of its parts (number, source, content, score), which
  \<open>ask_question\<close> formats and joins by blank lines; as a string it is empty exactly when
  the list is.
\<close>

record context_part =
  part_number :: nat
  part_source :: string
  part_content :: ustr
  part_score :: real

datatype prompt =
    Text ustr
  | RagUserMessage "context_part list" ustr
  | DefaultRagSystemPrompt

datatype role = System | User | Assistant

record message =
  msg_role :: role
  msg_content :: prompt

text \<open>
  What the service answers to one \<open>requests.post\<close>: the call raises (a timeout, a failed
  connection), or there is a response with a status code and a body. A body that is JSON
  is an object that may have the key \<open>choices\<close>, a list whose entries may have a
  \<open>message\<close> with a \<open>content\<close>, and may have the key \<open>error\<close>, an object that may have a
  \<open>message\<close>.
\<close>

datatype api_choice = NoMessage | NoContent | Content ustr

record api_result =
  res_choices :: "api_choice list option"
  res_error :: "ustr option option"

datatype body = NotJson | Json api_result

datatype reply = Raised request_failure | Response nat body

text \<open>
  The library \<open>requests\<close>: the reply to the \<open>n\<close>-th post of a message list, and whether
  the exception of \<open>response.json()\<close> on a body that is not JSON is a
  \<open>RequestException\<close> (it is from requests 2.27 on; before, it is a plain \<open>ValueError\<close>).
\<close>

record requests_lib =
  post :: "message list \<Rightarrow> nat \<Rightarrow> reply"
  json_error_is_request_exception :: bool

record zhipu_client =
  api_key :: string
  max_retries :: nat
  timeout :: nat

definition new_client :: "string \<Rightarrow> zhipu_client" where
  "new_client key = \<lparr>api_key = key, max_retries = 3, timeout = 30\<rparr>"

text \<open>The default message of \<open>result["error"].get("message", ...)\<close>: "unknown error".\<close>

definition unknown_error :: ustr where
  "unknown_error = [26410, 30693, 38169, 35823]"

text \<open>The \<open>try\<close> block after \<open>result = response.json()\<close>: it returns the content or raises.\<close>

definition extract_content :: "api_result \<Rightarrow> exc + ustr" where
  "extract_content result =
     (case res_choices result of
        Some (c # cs) \<Rightarrow>
          (case c of
             Content s \<Rightarrow> Inr (strip s)
           | NoMessage \<Rightarrow> Inl (KeyError ''message'')
           | NoContent \<Rightarrow> Inl (KeyError ''content''))
      | _ \<Rightarrow> Inl (ValueError ResponseFormatAbnormal))"

text \<open>
  One pass of the loop body. \<open>Return\<close> is the \<open>return\<close> of the content, \<open>Retry\<close> the first
  handler (a \<open>RequestException\<close> was caught), \<open>Raise\<close> the exception that the second
  handler (\<open>KeyError\<close>, \<open>ValueError\<close>) raises. When \<open>response.json()\<close> raises a plain
  \<open>ValueError\<close>, the second handler reads \<open>result\<close> before it was ever assigned.
\<close>

datatype attempt_result = Return ustr | Retry exc | Raise exc

definition attempt_once :: "requests_lib \<Rightarrow> message list \<Rightarrow> nat \<Rightarrow> attempt_result" where
  "attempt_once http messages n =
     (case post http messages n of
        Raised failure \<Rightarrow> Retry (RequestException failure)
      | Response status body \<Rightarrow>
          if 400 \<le> status \<and> status < 600 then Retry (RequestException (HTTPError status))
          else
            (case body of
               NotJson \<Rightarrow>
                 if json_error_is_request_exception http then Retry (RequestException JSONDecode)
                 else Raise UnboundLocalError
             | Json result \<Rightarrow>
                 (case extract_content result of
                    Inr reply_content \<Rightarrow> Return reply_content
                  | Inl e \<Rightarrow>
                      (case res_error result of
                         Some error_object \<Rightarrow>
                           Raise (ApiReturnedError
                                    (case error_object of Some m \<Rightarrow> m | None \<Rightarrow> unknown_error))
                       | None \<Rightarrow> Raise (ApiParseFailed e)))))"

text \<open>
  \<open>for attempt in range(self.max_retries)\<close>, from the attempt \<open>attempt\<close> on. The result is
  what \<open>generate_response\<close> returns or raises, with the number of posts made.
\<close>

function generate_loop ::
  "zhipu_client \<Rightarrow> requests_lib \<Rightarrow> message list \<Rightarrow> nat \<Rightarrow> (exc + ustr) \<times> nat" where
  "generate_loop client http messages attempt =
     (if attempt < max_retries client then
        (case attempt_once http messages attempt of
           Return reply_content \<Rightarrow> (Inr reply_content, attempt + 1)
         | Raise e \<Rightarrow> (Inl e, attempt + 1)
         | Retry e \<Rightarrow>
             if attempt = max_retries client - 1
             then (Inl (ApiRequestFailed (max_retries client) e), attempt + 1)
             else generate_loop client http messages (attempt + 1))
      else (Inl ApiRetriesExhausted, attempt))"
  by pat_completeness auto
termination
  by (relation "measure (\<lambda>(client, http, messages, attempt). max_retries client - attempt)") auto

definition generate_response ::
  "zhipu_client \<Rightarrow> requests_lib \<Rightarrow> message list \<Rightarrow> (exc + ustr) \<times> nat" where
  "generate_response client http messages = generate_loop client http messages 0"

definition truthy :: "prompt option \<Rightarrow> bool" where
  "truthy p \<longleftrightarrow> (case p of None \<Rightarrow> False | Some (Text t) \<Rightarrow> t \<noteq> [] | Some other \<Rightarrow> True)"

definition chat ::
  "zhipu_client \<Rightarrow> requests_lib \<Rightarrow> prompt \<Rightarrow> prompt option \<Rightarrow> message list option \<Rightarrow> (exc + ustr) \<times> nat" where
  "chat client http user_message system_prompt conversation_history =
     generate_response client http
       ((if truthy system_prompt then [\<lparr>msg_role = System, msg_content = the system_prompt\<rparr>] else []) @
        (case conversation_history of Some history \<Rightarrow> history | None \<Rightarrow> []) @
        [\<lparr>msg_role = User, msg_content = user_message\<rparr>])"

definition rag_chat ::
  "zhipu_client \<Rightarrow> requests_lib \<Rightarrow> ustr \<Rightarrow> context_part list \<Rightarrow> prompt option \<Rightarrow> (exc + ustr) \<times> nat" where
  "rag_chat client http question context system_prompt =
     chat client http (RagUserMessage context question)
       (if truthy system_prompt then system_prompt else Some DefaultRagSystemPrompt) None"

section \<open>The orchestrator (rag\_system.py)\<close>

record config =
  VECTOR_STORE_PATH :: string
  CHUNK_SIZE :: int
  CHUNK_OVERLAP :: int
  MAX_RETRIEVAL_DOCS :: int

record rag_system =
  document_processor :: "document_processor option"
  vector_store :: "vector_store option"
  llm_client :: "zhipu_client option"
  is_initialized :: bool

text \<open>
  The dictionary \<open>ask_question\<close> returns. Its three shapes have different keys, so the
  keys that can be absent are options. The answer and the error text are kept in their
  structure: the answer of the model, the fixed notice "the system is not initialised,
  call initialize() first", or the apology "apologies, answering the question failed: "
  followed by \<open>str(e)\<close>; the error is the fixed text \<open>System not initialized\<close> or \<open>str(e)\<close>.
  The timings of \<open>performance\<close> are clock readings and are left out; its
  \<open>references_count\<close> is kept.
\<close>

datatype answer_text = ModelAnswer ustr | NotInitializedNotice | Apology exc

datatype error_text = SystemNotInitialized | ErrorStr exc

record qa_response =
  success :: bool
  question_echo :: "ustr option"
  answer :: answer_text
  references :: "search_result list option"
  context_used :: "context_part list option"
  references_count :: "nat option"
  error :: "error_text option"

definition not_initialized_response :: qa_response where
  "not_initialized_response =
     \<lparr>success = False, question_echo = None, answer = NotInitializedNotice, references = None,
      context_used = None, references_count = None, error = Some SystemNotInitialized\<rparr>"

definition failure_response :: "ustr \<Rightarrow> exc \<Rightarrow> qa_response" where
  "failure_response question e =
     \<lparr>success = False, question_echo = Some question, answer = Apology e, references = None,
      context_used = None, references_count = None, error = Some (ErrorStr e)\<rparr>"

definition build_context :: "search_result list \<Rightarrow> context_part list" where
  "build_context refs =
     map (\<lambda>(i, r). \<lparr>part_number = i + 1, part_source = file_name (hit r),
                    part_content = content (hit r), part_score = similarity_score r\<rparr>)
         (enumerate 0 refs)"

text \<open>\<open>top_k or Config.MAX_RETRIEVAL_DOCS\<close>: \<open>None\<close> and \<open>0\<close> are the false values.\<close>

definition top_k_or_default :: "config \<Rightarrow> int option \<Rightarrow> int" where
  "top_k_or_default cfg top_k =
     (case top_k of None \<Rightarrow> MAX_RETRIEVAL_DOCS cfg
      | Some k \<Rightarrow> if k = 0 then MAX_RETRIEVAL_DOCS cfg else k)"

text \<open>The \<open>try\<close> block of \<open>ask_question\<close>: the response, or the exception that left it.\<close>

definition ask_question_try ::
  "config \<Rightarrow> faiss_lib option \<Rightarrow> requests_lib \<Rightarrow> rag_system \<Rightarrow> ustr \<Rightarrow> int option \<Rightarrow> bool \<Rightarrow>
   exc + qa_response" where
  "ask_question_try cfg faiss http rag question top_k include_references =
     (let k = top_k_or_default cfg top_k in
      case vector_store rag of
        None \<Rightarrow> Inl AttributeError
      | Some vs \<Rightarrow>
     (case search faiss vs question k of
        Inl e \<Rightarrow> Inl e
      | Inr refs \<Rightarrow>
          let context = (if refs \<noteq> [] \<and> include_references then build_context refs else [])
          in
     (case llm_client rag of
        None \<Rightarrow> Inl AttributeError
      | Some client \<Rightarrow>
     (case fst (if context \<noteq> [] then rag_chat client http question context None
                else chat client http (Text question) None None) of
        Inl e \<Rightarrow> Inl e
      | Inr reply_text \<Rightarrow>
          Inr \<lparr>success = True, question_echo = Some question, answer = ModelAnswer reply_text,
               references = Some (if include_references then refs else []),
               context_used = Some (if include_references then context else []),
               references_count = Some (length refs), error = None\<rparr>))))"

text \<open>
  \<open>ask_question\<close> itself: the test of \<open>is_initialized\<close>, then the \<open>try\<close> block under
  \<open>except Exception\<close>. A result \<open>Inl\<close> would be an exception that reaches the caller.
\<close>

definition ask_question ::
  "config \<Rightarrow> faiss_lib option \<Rightarrow> requests_lib \<Rightarrow> rag_system \<Rightarrow> ustr \<Rightarrow> int option \<Rightarrow> bool \<Rightarrow>
   exc + qa_response" where
  "ask_question cfg faiss http rag question top_k include_references =
     (if \<not> is_initialized rag then Inr not_initialized_response
      else
        (case ask_question_try cfg faiss http rag question top_k include_references of
           Inr response \<Rightarrow> Inr response
         | Inl e \<Rightarrow> Inr (failure_response question e)))"

text \<open>
  \<open>_build_vector_index\<close>, given the documents \<open>load_documents\<close> has read: the one place
  that refuses an empty corpus, before \<open>build_index\<close> is called.
\<close>

definition build_vector_index ::
  "config \<Rightarrow> faiss_lib option \<Rightarrow> document_processor \<Rightarrow> vector_store \<Rightarrow> filesystem \<Rightarrow> document list \<Rightarrow>
   (vector_store \<times> filesystem) \<times> (exc + unit)" where
  "build_vector_index cfg faiss dp vs fs documents =
     (if documents = [] then ((vs, fs), Inl (ValueError NoDocumentsFound))
      else
        (case build_index faiss vs (split_documents dp documents) of
           (vs1, Inl e) \<Rightarrow> ((vs1, fs), Inl e)
         | (vs1, Inr u) \<Rightarrow>
             (case save_index faiss vs1 fs (VECTOR_STORE_PATH cfg) of
                (fs1, r) \<Rightarrow> ((vs1, fs1), r))))"

section \<open>A flat inner-product index, and small stores and disks\<close>

text \<open>
  The search of \<open>faiss.IndexFlatIP\<close> as the FAISS documentation describes it, for one
  query: the call asserts \<open>k > 0\<close> and that the query has the dimension of the index; it
  returns exactly \<open>k\<close> pairs, the stored positions by descending inner product, and when
  the index holds fewer than \<open>k\<close> vectors the missing pairs have the label \<open>-1\<close> and the
  score \<open>-FLT_MAX\<close>. \<open>normalize_L2\<close> divides a row by its norm and leaves a zero row alone.
\<close>

definition inner :: "vec \<Rightarrow> vec \<Rightarrow> real" where
  "inner x y = sum_list (map (\<lambda>(a, b). a * b) (zip x y))"

definition l2_normalize :: "vec \<Rightarrow> vec" where
  "l2_normalize x = (let n = inner x x in if n > 0 then map (\<lambda>a. a / sqrt n) x else x)"

definition missing_score :: real where
  "missing_score = - 340282346638528859811704183484516925440"

definition flat_ip_search :: "faiss_index \<Rightarrow> vec \<Rightarrow> int \<Rightarrow> exc + (real \<times> int) list" where
  "flat_ip_search ix q k =
     (if k \<le> 0 \<or> length q \<noteq> dim ix then Inl AssertionError
      else
        let scored = zip (map (inner q) (vectors ix)) (map int [0..<length (vectors ix)]);
            best = take (nat k) (sort_key (\<lambda>(score, label). - score) scored)
        in Inr (best @ replicate (nat k - length best) (missing_score, - 1)))"

definition faiss_flat :: faiss_lib where
  "faiss_flat = \<lparr>normalize_L2 = l2_normalize, index_search = flat_ip_search\<rparr>"

text \<open>
  Three embedding models of dimension 1 that map every text to the vector \<open>[1]\<close>:
  \<open>unit_encoder\<close> always returns a two-dimensional array; \<open>st_encoder\<close> returns, as
  \<open>SentenceTransformer.encode\<close> does on an empty list, the empty one-dimensional array;
  \<open>picky_encoder\<close> raises on a batch of more than one text.
\<close>

definition unit_encoder :: encoder where
  "unit_encoder texts = Inr (Arr2 1 (map (\<lambda>t. [1]) texts))"

definition st_encoder :: encoder where
  "st_encoder texts = (if texts = [] then Inr (Arr1 []) else unit_encoder texts)"

definition picky_encoder :: encoder where
  "picky_encoder texts = (if length texts > 1 then Inl (ModelError []) else unit_encoder texts)"

definition chunk0 :: chunk where
  "chunk0 = \<lparr>file_name = ''a.txt'', content = [65], chunk_id = 0, kind = Txt\<rparr>"

definition chunk1 :: chunk where
  "chunk1 = \<lparr>file_name = ''a.txt'', content = [66], chunk_id = 1, kind = Txt\<rparr>"

definition store0 :: vector_store where
  "store0 = \<lparr>model = Some unit_encoder, index = None, chunks = []\<rparr>"

definition store_built :: vector_store where
  "store_built = \<lparr>model = Some unit_encoder, index = Some \<lparr>dim = 1, vectors = [[1]]\<rparr>, chunks = [chunk0]\<rparr>"

definition store1 :: vector_store where
  "store1 = \<lparr>model = Some picky_encoder, index = Some \<lparr>dim = 1, vectors = [[1]]\<rparr>, chunks = [chunk0]\<rparr>"


text \<open>A store out of step, as a load leaves it: two vectors, one chunk.\<close>

definition store_mismatch :: vector_store where
  "store_mismatch = \<lparr>model = Some unit_encoder, index = Some \<lparr>dim = 1, vectors = [[1], [1]]\<rparr>,
                      chunks = [chunk0]\<rparr>"

definition disk_empty :: filesystem where
  "disk_empty = \<lparr>files = Map.empty, write_fault = (\<lambda>p. NoFault), mkdir_denied = (\<lambda>p. False)\<rparr>"

definition disk_index_only :: filesystem where
  "disk_index_only = \<lparr>files = [''s/index.faiss'' \<mapsto> FaissFile \<lparr>dim = 1, vectors = [[1], [1]]\<rparr>],
                       write_fault = (\<lambda>p. NoFault), mkdir_denied = (\<lambda>p. False)\<rparr>"

definition disk_mismatch :: filesystem where
  "disk_mismatch = \<lparr>files = [''s/index.faiss'' \<mapsto> FaissFile \<lparr>dim = 1, vectors = [[1], [1]]\<rparr>,
                              ''s/chunks.pkl'' \<mapsto> PickleFile [chunk0]],
                     write_fault = (\<lambda>p. NoFault), mkdir_denied = (\<lambda>p. False)\<rparr>"

definition disk_old :: filesystem where
  "disk_old = \<lparr>files = [''s/index.faiss'' \<mapsto> FaissFile \<lparr>dim = 1, vectors = [[1]]\<rparr>,
                         ''s/chunks.pkl'' \<mapsto> PickleFile [chunk0]],
                write_fault = (\<lambda>p. if p = ''s/chunks.pkl'' then OpenFails else NoFault),
                mkdir_denied = (\<lambda>p. False)\<rparr>"


text \<open>
  Six services. \<open>flaky\<close> answers 500 twice and then 200 with the content \<open>" OK "\<close>;
  \<open>down\<close> always answers 500; \<open>steady\<close> always answers 200 with the content;
  \<open>refusing\<close> answers 200 with an error object; \<open>unauthorized\<close> answers 401 with the same
  error object; \<open>garbled\<close> answers 200 with a body that is not JSON.
\<close>

definition ok_result :: api_result where
  "ok_result = \<lparr>res_choices = Some [Content [32, 79, 75, 32]], res_error = None\<rparr>"

definition flaky :: requests_lib where
  "flaky = \<lparr>post = (\<lambda>ms n. if n < 2 then Response 500 NotJson else Response 200 (Json ok_result)),
            json_error_is_request_exception = True\<rparr>"

definition down :: requests_lib where
  "down = \<lparr>post = (\<lambda>ms n. Response 500 NotJson), json_error_is_request_exception = True\<rparr>"

definition refusing :: requests_lib where
  "refusing = \<lparr>post = (\<lambda>ms n. Response 200 (Json \<lparr>res_choices = None, res_error = Some (Some [110, 111])\<rparr>)),
               json_error_is_request_exception = True\<rparr>"

definition unauthorized :: requests_lib where
  "unauthorized = \<lparr>post = (\<lambda>ms n. Response 401 (Json \<lparr>res_choices = None, res_error = Some (Some [110, 111])\<rparr>)),
               json_error_is_request_exception = True\<rparr>"

definition garbled :: requests_lib where
  "garbled = \<lparr>post = (\<lambda>ms n. Response 200 NotJson), json_error_is_request_exception = True\<rparr>"

definition steady :: requests_lib where
  "steady = \<lparr>post = (\<lambda>ms n. Response 200 (Json ok_result)), json_error_is_request_exception = True\<rparr>"

text \<open>
  A configuration whose default retrieval count is 1, and three orchestrators: one
  never initialised, one initialised around a store with no index, one initialised
  around the store of one chunk.
\<close>

definition cfg1 :: config where
  "cfg1 = \<lparr>VECTOR_STORE_PATH = ''s'', CHUNK_SIZE = 500, CHUNK_OVERLAP = 50, MAX_RETRIEVAL_DOCS = 1\<rparr>"

definition rag_new :: rag_system where
  "rag_new = \<lparr>document_processor = None, vector_store = None, llm_client = None, is_initialized = False\<rparr>"

definition rag_unbuilt :: rag_system where
  "rag_unbuilt = \<lparr>document_processor = Some \<lparr>chunk_size = 500, chunk_overlap = 50\<rparr>,
                   vector_store = Some store0, llm_client = Some (new_client ''k''), is_initialized = True\<rparr>"

definition rag_ready :: rag_system where
  "rag_ready = \<lparr>document_processor = Some \<lparr>chunk_size = 500, chunk_overlap = 50\<rparr>,
                 vector_store = Some store_built, llm_client = Some (new_client ''k''), is_initialized = True\<rparr>"

section \<open>Predicates of the statements\<close>

text \<open>
  The \<open>RequestException\<close> that handling a reply raises inside the \<open>try\<close> block, if any:
  the one \<open>requests.post\<close> raised, the \<open>HTTPError\<close> of \<open>raise_for_status\<close> on a 4xx or 5xx
  status, or the decoding error of \<open>response.json()\<close> where the library makes it one.
\<close>

definition request_exception :: "requests_lib \<Rightarrow> reply \<Rightarrow> request_failure option" where
  "request_exception http r =
     (case r of
        Raised failure \<Rightarrow> Some failure
      | Response status body \<Rightarrow>
          if 400 \<le> status \<and> status < 600 then Some (HTTPError status)
          else if body = NotJson \<and> json_error_is_request_exception http then Some JSONDecode
          else None)"


text \<open>
  What \<open>search\<close> makes of an answer of the lookup with no negative position: the pairs
  whose position is below the number of chunks, each turned into the chunk at that
  position with the pair's score.
\<close>

definition in_range :: "chunk list \<Rightarrow> (real \<times> int) list \<Rightarrow> (real \<times> int) list" where
  "in_range cs found = filter (\<lambda>(score, idx). idx < int (length cs)) found"

definition as_results :: "chunk list \<Rightarrow> (real \<times> int) list \<Rightarrow> search_result list" where
  "as_results cs found = map (\<lambda>(score, idx). \<lparr>hit = cs ! nat idx, similarity_score = score\<rparr>) found"

text \<open>
  The parallel-array invariant of the store, for a library and an embedding model: the
  index holds as many vectors as there are chunks, and the vectors are, in order, the
  normalised rows the model returns for the chunks' contents. With no index there are no
  vectors, so there must be no chunks.
\<close>

definition coupled :: "faiss_lib \<Rightarrow> encoder \<Rightarrow> vector_store \<Rightarrow> bool" where
  "coupled lib encode vs \<longleftrightarrow>
     (case index vs of
        None \<Rightarrow> chunks vs = []
      | Some ix \<Rightarrow>
          (case encode (map content (chunks vs)) of
             Inr (Arr2 dimension rows) \<Rightarrow>
               length (vectors ix) = length (chunks vs) \<and>
               vectors ix = map (normalize_L2 lib) rows
           | _ \<Rightarrow> False))"


text \<open>
  When a chunk may be longer than \<open>chunk_size\<close>: it is one sentence alone, or (with a
  positive overlap) a seed of at most \<open>chunk_overlap\<close> characters taken from the end of
  the chunk before, a space, and one sentence.
\<close>

definition oversize_allowed :: "document_processor \<Rightarrow> ustr list \<Rightarrow> ustr \<Rightarrow> bool" where
  "oversize_allowed dp ss c \<longleftrightarrow>
     c \<in> set ss \<or>
     (0 < chunk_overlap dp \<and>
      (\<exists>s \<in> set ss. \<exists>seed. int (length seed) \<le> chunk_overlap dp \<and> c = strip (seed @ [32] @ s)))"

definition chunk_ok :: "document_processor \<Rightarrow> ustr list \<Rightarrow> ustr \<Rightarrow> bool" where
  "chunk_ok dp ss c \<longleftrightarrow> int (length c) \<le> chunk_size dp \<or> oversize_allowed dp ss c"

text \<open>
  A text is single-spaced when every sentence mark in it, other than a mark at its very
  end, is followed by exactly one space character U+0020 and then by a character that is
  not whitespace. On such a text the chunker's re-joining of sentences with one space
  gives the text back.
\<close>

fun single_spaced :: "ustr \<Rightarrow> bool" where
  "single_spaced [] = True"
| "single_spaced [c] = True"
| "single_spaced (c # d # cs) =
     ((is_mark c \<longrightarrow> d = 32 \<and> cs \<noteq> [] \<and> \<not> is_space (hd cs)) \<and> single_spaced (d # cs))"

text \<open>The buffer the loop builds when nothing overflows: each sentence followed by a space.\<close>

definition joined :: "ustr list \<Rightarrow> ustr" where
  "joined ss = concat (map (\<lambda>s. s @ [32]) ss)"

definition kept :: "ustr list \<Rightarrow> ustr list" where
  "kept raws = filter (\<lambda>s. s \<noteq> []) (map strip raws)"

section \<open>Properties of strip\<close>

lemma is_space_32 [simp]: "is_space 32"
  by (simp add: is_space_def)

lemma strip_snoc_space [simp]: "strip (s @ [32]) = strip s"
proof (cases "\<forall>x\<in>set s. is_space x")
  case True
  then show ?thesis by (auto simp: strip_def dropWhile_append dest: set_dropWhileD)
next
  case False
  then show ?thesis by (auto simp: strip_def dropWhile_append)
qed

lemma length_strip_le: "length (strip s) \<le> length s"
proof -
  have "length (strip s) \<le> length (dropWhile is_space s)"
    unfolding strip_def by (metis length_dropWhile_le length_rev)
  also have "\<dots> \<le> length s" by (rule length_dropWhile_le)
  finally show ?thesis .
qed

lemma strip_fixed:
  assumes "t \<noteq> []" "\<not> is_space (hd t)" "\<not> is_space (last t)"
  shows "strip t = t"
proof -
  from assms have a: "dropWhile is_space t = t" by (cases t) auto
  from assms have "rev t \<noteq> []" "\<not> is_space (hd (rev t))" by (simp_all add: hd_rev)
  then have "dropWhile is_space (rev t) = rev t" by (cases "rev t") auto
  with a show ?thesis by (simp add: strip_def)
qed

lemma last_dropWhile: "dropWhile P xs \<noteq> [] \<Longrightarrow> last (dropWhile P xs) = last xs"
  by (metis last_appendR takeWhile_dropWhile_id)

lemma strip_ends:
  assumes "strip s \<noteq> []"
  shows "\<not> is_space (hd (strip s))" "\<not> is_space (last (strip s))"
proof -
  let ?z = "dropWhile is_space s"
  let ?y = "dropWhile is_space (rev ?z)"
  from assms have y: "?y \<noteq> []" by (simp add: strip_def)
  then have hy: "\<not> is_space (hd ?y)" by (rule hd_dropWhile)
  then show "\<not> is_space (last (strip s))" using y by (simp add: strip_def last_rev)
  from y have z: "?z \<noteq> []" by (metis dropWhile.simps(1) rev.simps(1))
  then have hz: "\<not> is_space (hd ?z)" by (rule hd_dropWhile)
  from y have "last ?y = last (rev ?z)" by (rule last_dropWhile)
  with z have "last ?y = hd ?z" by (simp add: last_rev)
  with hz y show "\<not> is_space (hd (strip s))" by (simp add: strip_def hd_rev)
qed

lemma strip_idem [simp]: "strip (strip s) = strip s"
proof (cases "strip s = []")
  case True
  have "strip [] = []" by (simp add: strip_def)
  with True show ?thesis by simp
next
  case False
  then show ?thesis by (intro strip_fixed strip_ends)
qed

section \<open>Chunk lengths\<close>

text \<open>
  The loop keeps every emitted chunk, and the stripped running buffer, either within
  \<open>chunk_size\<close> or of one of the two shapes of \<open>oversize_allowed\<close>: appending a
  sentence happens only when the result fits, and a fresh buffer is a seed.
\<close>

lemma seed_chunk_ok:
  assumes "strip raw \<noteq> []" "strip raw \<in> set ss"
  shows "chunk_ok dp ss (strip (seed_chunk dp out (strip raw)))"
proof (cases "chunk_overlap dp > 0 \<and> out \<noteq> []")
  case True
  let ?l = "last out"
  let ?seed = "drop (nat (max 0 (int (length ?l) - chunk_overlap dp))) ?l"
  from True have "int (length ?seed) \<le> chunk_overlap dp" by auto
  moreover from True have "strip (seed_chunk dp out (strip raw)) = strip (?seed @ [32] @ strip raw)"
    using strip_snoc_space [of "?seed @ [32] @ strip raw"] by (simp add: seed_chunk_def Let_def)
  ultimately have "oversize_allowed dp ss (strip (seed_chunk dp out (strip raw)))"
    unfolding oversize_allowed_def using True assms(2) by metis
  then show ?thesis by (simp add: chunk_ok_def)
next
  case False
  then have "strip (seed_chunk dp out (strip raw)) = strip raw"
    by (auto simp: seed_chunk_def)
  with assms show ?thesis by (simp add: chunk_ok_def oversize_allowed_def)
qed

lemma split_loop_inv:
  assumes "split_loop dp raws (out, cur) = (out', cur')"
    and "\<forall>c\<in>set out. chunk_ok dp ss c"
    and "cur = [] \<or> chunk_ok dp ss (strip cur)"
    and "\<forall>r\<in>set raws. strip r \<noteq> [] \<longrightarrow> strip r \<in> set ss"
  shows "(\<forall>c\<in>set out'. chunk_ok dp ss c) \<and> (cur' = [] \<or> chunk_ok dp ss (strip cur'))"
  using assms
proof (induction raws arbitrary: out cur)
  case Nil
  then show ?case by simp
next
  case (Cons raw raws)
  let ?s = "strip raw"
  note loop = Cons.prems(1) and emitted = Cons.prems(2) and buffer = Cons.prems(3)
  from Cons.prems(4) have rest: "\<forall>r\<in>set raws. strip r \<noteq> [] \<longrightarrow> strip r \<in> set ss"
    by simp
  show ?case
  proof (cases "?s = []")
    case True
    with loop have run: "split_loop dp raws (out, cur) = (out', cur')" by simp
    show ?thesis by (rule Cons.IH [OF run emitted buffer rest])
  next
    case ne: False
    with Cons.prems(4) have inS: "?s \<in> set ss" by simp
    show ?thesis
    proof (cases "int (length cur) + int (length ?s) \<le> chunk_size dp")
      case True
      with ne loop have run: "split_loop dp raws (out, cur @ ?s @ [32]) = (out', cur')"
        by simp
      have "length (strip (cur @ ?s @ [32])) \<le> length (cur @ ?s)"
        using strip_snoc_space [of "cur @ ?s"] length_strip_le [of "cur @ ?s"] by simp
      with True have "chunk_ok dp ss (strip (cur @ ?s @ [32]))"
        by (simp add: chunk_ok_def)
      then have buffer': "cur @ ?s @ [32] = [] \<or> chunk_ok dp ss (strip (cur @ ?s @ [32]))" ..
      show ?thesis by (rule Cons.IH [OF run emitted buffer' rest])
    next
      case False
      let ?outs = "if cur \<noteq> [] then out @ [strip cur] else out"
      from False ne loop
      have run: "split_loop dp raws (?outs, seed_chunk dp ?outs ?s) = (out', cur')"
        by (simp add: Let_def)
      from emitted buffer have emitted': "\<forall>c\<in>set ?outs. chunk_ok dp ss c" by auto
      have "chunk_ok dp ss (strip (seed_chunk dp ?outs ?s))"
        using ne inS by (rule seed_chunk_ok)
      then have buffer': "seed_chunk dp ?outs ?s = [] \<or> chunk_ok dp ss (strip (seed_chunk dp ?outs ?s))" ..
      show ?thesis by (rule Cons.IH [OF run emitted' buffer' rest])
    qed
  qed
qed

text \<open>
  C4, as the code has it. Every chunk of \<open>split_text\<close> has at most \<open>chunk_size\<close>
  characters, or is one (stripped) sentence of the text alone, or, when
  \<open>chunk_overlap\<close> is positive, is the stripped concatenation of a seed of at most
  \<open>chunk_overlap\<close> characters, a space and one sentence. So without overlap a chunk
  exceeds \<open>chunk_size\<close> only when it is a single sentence that exceeds it; with overlap a
  seeded chunk may exceed it although its sentence does not, by at most
  \<open>chunk_overlap + 1\<close> characters more than the sentence.
\<close>

theorem split_text_chunk_bound:
  assumes "c \<in> set (split_text dp text)"
  shows "int (length c) \<le> chunk_size dp \<or>
         c \<in> set (sentences_of text) \<or>
         (0 < chunk_overlap dp \<and>
          (\<exists>s \<in> set (sentences_of text). \<exists>seed.
             int (length seed) \<le> chunk_overlap dp \<and> c = strip (seed @ [32] @ s)))"
proof -
  obtain out cur where run: "split_loop dp (re_split [] text) ([], []) = (out, cur)"
    by (cases "split_loop dp (re_split [] text) ([], [])")
  have "(\<forall>c\<in>set out. chunk_ok dp (sentences_of text) c) \<and>
        (cur = [] \<or> chunk_ok dp (sentences_of text) (strip cur))"
    by (rule split_loop_inv [OF run]) (simp_all add: sentences_of_def)
  moreover from assms run have "c \<in> set out \<or> (cur \<noteq> [] \<and> c = strip cur)"
    by (auto simp: split_text_def split: if_splits)
  ultimately show ?thesis by (auto simp: chunk_ok_def oversize_allowed_def)
qed

text \<open>
  The text \<open>aa. bb.\<close> with \<open>chunk_size = 4\<close> and \<open>chunk_overlap = 2\<close>: the second chunk
  is the seed \<open>a.\<close>, a space and the sentence \<open>bb.\<close>, six characters.
\<close>

theorem split_text_chunk_bound_witness:
  "[97, 46, 32, 98, 98, 46] \<in> set (split_text \<lparr>chunk_size = 4, chunk_overlap = 2\<rparr> [97, 97, 46, 32, 98, 98, 46]) \<and>
   (int (length [97, 46, 32, 98, 98, 46 :: nat]) \<le> chunk_size \<lparr>chunk_size = 4, chunk_overlap = 2\<rparr> \<or>
    [97, 46, 32, 98, 98, 46] \<in> set (sentences_of [97, 97, 46, 32, 98, 98, 46]) \<or>
    (0 < chunk_overlap \<lparr>chunk_size = 4, chunk_overlap = 2\<rparr> \<and>
     (\<exists>s \<in> set (sentences_of [97, 97, 46, 32, 98, 98, 46]). \<exists>seed.
        int (length seed) \<le> chunk_overlap \<lparr>chunk_size = 4, chunk_overlap = 2\<rparr> \<and>
        [97, 46, 32, 98, 98, 46] = strip (seed @ [32] @ s))))"
proof -
  have mem: "[97, 46, 32, 98, 98, 46] \<in>
      set (split_text \<lparr>chunk_size = 4, chunk_overlap = 2\<rparr> [97, 97, 46, 32, 98, 98, 46])"
    by (simp add: split_text_def is_mark_def is_space_def strip_def seed_chunk_def)
  from mem split_text_chunk_bound [OF mem] show ?thesis by blast
qed

text \<open>
  C4 as the specification states it fails: with \<open>chunk_overlap = 2 < chunk_size = 4\<close> the
  text \<open>aa. bb.\<close> has the two sentences \<open>aa.\<close> and \<open>bb.\<close> of three characters each,
  neither exceeds \<open>chunk_size\<close>, and the second chunk \<open>a. bb.\<close> has six characters.
\<close>

theorem split_text_oversize_counterexample:
  "chunk_overlap \<lparr>chunk_size = 4, chunk_overlap = 2\<rparr> < chunk_size \<lparr>chunk_size = 4, chunk_overlap = 2\<rparr> \<and>
   sentences_of [97, 97, 46, 32, 98, 98, 46] = [[97, 97, 46], [98, 98, 46]] \<and>
   split_text \<lparr>chunk_size = 4, chunk_overlap = 2\<rparr> [97, 97, 46, 32, 98, 98, 46] =
     [[97, 97, 46], [97, 46, 32, 98, 98, 46]] \<and>
   int (length [97, 46, 32, 98, 98, 46 :: nat]) > chunk_size \<lparr>chunk_size = 4, chunk_overlap = 2\<rparr>"
  by (simp add: split_text_def sentences_of_def is_mark_def is_space_def strip_def seed_chunk_def)

section \<open>Short documents\<close>

text \<open>
  While the buffer with all remaining sentences appended stays within \<open>chunk_size\<close>
  (the trailing space not counted), the loop only appends.
\<close>

lemma space_not_mark: "is_space c \<Longrightarrow> \<not> is_mark c"
  by (auto simp: is_space_def is_mark_def)

lemma strip_Nil [simp]: "strip [] = []"
  by (simp add: strip_def)

lemma strip_prepend_spaces: "\<forall>x\<in>set ws. is_space x \<Longrightarrow> strip (ws @ s) = strip s"
  by (simp add: strip_def dropWhile_append)

lemma strip_append_spaces: "\<forall>x\<in>set ws. is_space x \<Longrightarrow> strip (s @ ws) = strip s"
proof -
  assume ws: "\<forall>x\<in>set ws. is_space x"
  show ?thesis
  proof (cases "\<forall>x\<in>set s. is_space x")
    case True
    with ws have a: "dropWhile is_space (s @ ws) = []" by simp
    from True have b: "dropWhile is_space s = []" by simp
    show ?thesis unfolding strip_def a b by (rule refl)
  next
    case False
    then have "dropWhile is_space (s @ ws) = dropWhile is_space s @ ws"
      by (auto simp: dropWhile_append)
    with ws show ?thesis by (simp add: strip_def dropWhile_append)
  qed
qed

lemma split_loop_fits:
  assumes "int (length cur) + int (length (joined (kept raws))) \<le> chunk_size dp + 1"
  shows "split_loop dp raws (out, cur) = (out, cur @ joined (kept raws))"
  using assms
proof (induction raws arbitrary: cur)
  case Nil
  then show ?case by (simp add: joined_def kept_def)
next
  case (Cons raw raws)
  show ?case
  proof (cases "strip raw = []")
    case True
    then have k: "kept (raw # raws) = kept raws" by (simp add: kept_def)
    with Cons.prems have "split_loop dp raws (out, cur) = (out, cur @ joined (kept raws))"
      by (intro Cons.IH) simp
    with True k show ?thesis by simp
  next
    case False
    then have k: "joined (kept (raw # raws)) = strip raw @ [32] @ joined (kept raws)"
      by (simp add: kept_def joined_def)
    with Cons.prems have fit: "int (length cur) + int (length (strip raw)) \<le> chunk_size dp"
      by simp
    from k Cons.prems
    have "split_loop dp raws (out, cur @ strip raw @ [32]) =
          (out, (cur @ strip raw @ [32]) @ joined (kept raws))"
      by (intro Cons.IH) simp
    with False fit k show ?thesis by simp
  qed
qed

lemma split_text_fits:
  assumes "int (length (joined (sentences_of text))) \<le> chunk_size dp + 1"
  shows "split_text dp text =
         (if joined (sentences_of text) = [] then [] else [strip (joined (sentences_of text))])"
proof -
  have k: "sentences_of text = kept (re_split [] text)" by (simp add: sentences_of_def kept_def)
  from assms have "split_loop dp (re_split [] text) ([], []) = ([], [] @ joined (kept (re_split [] text)))"
    unfolding k by (intro split_loop_fits) simp
  then show ?thesis by (simp add: split_text_def k)
qed


lemma re_split_spaces: "\<forall>x\<in>set ws. is_space x \<Longrightarrow> re_split cur (ws @ r) = re_split (cur @ ws) r"
  by (induction ws arbitrary: cur) (simp_all add: space_not_mark)

lemma re_split_lead:
  "\<forall>x\<in>set ws. is_space x \<Longrightarrow> map strip (re_split (ws @ cur) r) = map strip (re_split cur r)"
proof (induction cur r rule: re_split.induct)
  case (1 cur)
  then show ?case by (simp add: strip_prepend_spaces)
next
  case (2 cur c cs)
  show ?case
  proof (cases "is_mark c")
    case True
    from 2(3) have "strip (ws @ cur @ [c]) = strip (cur @ [c])" by (rule strip_prepend_spaces)
    with True show ?thesis by simp
  next
    case False
    with 2(2) [OF False 2(3)] show ?thesis by simp
  qed
qed

lemma re_split_trail:
  "\<forall>x\<in>set ws. is_space x \<Longrightarrow> map strip (re_split cur (r @ ws)) = map strip (re_split cur r)"
proof (induction cur r rule: re_split.induct)
  case (1 cur)
  then have "re_split cur ([] @ ws) = [cur @ ws]"
    using re_split_spaces [of ws cur "[]"] by simp
  with 1 show ?case by (simp add: strip_append_spaces)
next
  case (2 cur c cs)
  show ?case
  proof (cases "is_mark c")
    case True
    show ?thesis
    proof (cases "\<forall>x\<in>set cs. is_space x")
      case allsp: True
      with 2(3) have a: "dropWhile is_space (cs @ ws) = []" by simp
      from allsp have b: "dropWhile is_space cs = []" by simp
      from True show ?thesis by (simp only: append_Cons re_split.simps if_True a b)
    next
      case False
      then have "dropWhile is_space (cs @ ws) = dropWhile is_space cs @ ws"
        by (auto simp: dropWhile_append)
      with True 2(1) [OF True 2(3)] show ?thesis by simp
    qed
  next
    case False
    with 2(2) [OF False 2(3)] show ?thesis by simp
  qed
qed

lemma strip_decompose:
  "\<exists>ws1 ws2. (\<forall>x\<in>set ws1. is_space x) \<and> (\<forall>x\<in>set ws2. is_space x) \<and> s = ws1 @ strip s @ ws2"
proof -
  let ?z = "dropWhile is_space s"
  have "s = takeWhile is_space s @ ?z" by simp
  moreover have "rev ?z = takeWhile is_space (rev ?z) @ dropWhile is_space (rev ?z)" by simp
  then have "?z = strip s @ rev (takeWhile is_space (rev ?z))"
    unfolding strip_def by (metis rev_append rev_rev_ident)
  ultimately have "s = takeWhile is_space s @ strip s @ rev (takeWhile is_space (rev ?z))"
    by simp
  moreover have "\<forall>x\<in>set (takeWhile is_space s). is_space x" by (auto dest: set_takeWhileD)
  moreover have "\<forall>x\<in>set (rev (takeWhile is_space (rev ?z))). is_space x"
    by (auto dest: set_takeWhileD)
  ultimately show ?thesis by blast
qed

lemma sentences_of_strip: "sentences_of (strip text) = sentences_of text"
proof -
  obtain ws1 ws2 where ws1: "\<forall>x\<in>set ws1. is_space x" and ws2: "\<forall>x\<in>set ws2. is_space x"
    and tx: "text = ws1 @ strip text @ ws2"
    using strip_decompose by blast
  have "map strip (re_split [] (ws1 @ strip text @ ws2)) = map strip (re_split (ws1 @ []) (strip text @ ws2))"
    using re_split_spaces [OF ws1, of "[]" "strip text @ ws2"] by simp
  also have "\<dots> = map strip (re_split [] (strip text @ ws2))"
    by (rule re_split_lead [OF ws1])
  also have "\<dots> = map strip (re_split [] (strip text))"
    by (rule re_split_trail [OF ws2])
  finally have "map strip (re_split [] text) = map strip (re_split [] (strip text))"
    using tx by simp
  then show ?thesis by (simp add: sentences_of_def)
qed


lemma single_spaced_tl: "single_spaced (c # cs) \<Longrightarrow> single_spaced cs"
  by (cases cs) simp_all

lemma kept_Cons: "kept (p # ps) = (if strip p = [] then kept ps else strip p # kept ps)"
  by (simp add: kept_def)

lemma joined_Cons: "joined (p # ps) = p @ [32] @ joined ps"
  by (simp add: joined_def)

lemma re_split_single_spaced:
  assumes "cur @ r \<noteq> []" "\<not> is_space (hd (cur @ r))" "\<not> is_space (last (cur @ r))"
    and "single_spaced r"
  shows "joined (kept (re_split cur r)) = cur @ r @ [32]"
  using assms
proof (induction cur r rule: re_split.induct)
  case (1 cur)
  then have "strip cur = cur" by (intro strip_fixed) simp_all
  with 1 show ?case by (simp add: kept_def joined_def)
next
  case (2 cur c cs)
  show ?case
  proof (cases "is_mark c")
    case mark: True
    have "\<not> is_space (hd (cur @ [c]))" using "2.prems"(2) by (cases cur) simp_all
    moreover have "\<not> is_space (last (cur @ [c]))" using mark space_not_mark by auto
    ultimately have piece: "strip (cur @ [c]) = cur @ [c]" by (intro strip_fixed) simp_all
    show ?thesis
    proof (cases cs)
      case Nil
      with mark piece show ?thesis by (simp add: kept_def joined_def)
    next
      case (Cons d cs')
      with mark "2.prems"(4) have d: "d = 32" and ne: "cs' \<noteq> []" and hd: "\<not> is_space (hd cs')"
        and ss: "single_spaced cs'"
        by (auto dest: single_spaced_tl)
      from ne hd have dw: "dropWhile is_space cs = cs'"
        unfolding Cons d by (cases cs') simp_all
      from "2.prems"(3) ne have "\<not> is_space (last cs')" unfolding Cons by simp
      have "joined (kept (re_split [] (dropWhile is_space cs))) = [] @ dropWhile is_space cs @ [32]"
        using ne hd ss \<open>\<not> is_space (last cs')\<close> unfolding dw
        by (intro "2.IH"(1) [OF mark, unfolded dw]) simp_all
      then have rec: "joined (kept (re_split [] cs')) = cs' @ [32]" unfolding dw by simp
      from mark dw have "re_split cur (c # cs) = (cur @ [c]) # re_split [] cs'" by simp
      then have "joined (kept (re_split cur (c # cs))) = (cur @ [c]) @ [32] @ cs' @ [32]"
        using piece rec by (simp add: kept_Cons joined_Cons)
      then show ?thesis by (simp add: Cons d)
    qed
  next
    case False
    from "2.prems" have "joined (kept (re_split (cur @ [c]) cs)) = (cur @ [c]) @ cs @ [32]"
      by (intro "2.IH"(2) [OF False]) (auto dest: single_spaced_tl)
    with False show ?thesis by simp
  qed
qed

text \<open>
  C3, as the code has it. A document whose content has at most \<open>chunk_size\<close> characters,
  is not blank, and is single-spaced once trimmed (every sentence mark inside it is
  followed by exactly one space and then a non-whitespace character) yields exactly one
  chunk, equal to the trimmed content.
\<close>

theorem split_text_single_chunk:
  assumes "int (length text) \<le> chunk_size dp" and "strip text \<noteq> []"
    and "single_spaced (strip text)"
  shows "split_text dp text = [strip text]"
proof -
  let ?t = "strip text"
  from assms(2) have "\<not> is_space (hd ?t)" "\<not> is_space (last ?t)" by (rule strip_ends)+
  with assms(2,3) have "joined (kept (re_split [] ?t)) = [] @ ?t @ [32]"
    by (intro re_split_single_spaced) simp_all
  then have "joined (sentences_of ?t) = ?t @ [32]" by (simp add: sentences_of_def kept_def)
  then have j: "joined (sentences_of text) = ?t @ [32]" by (simp add: sentences_of_strip)
  have "length ?t \<le> length text" by (rule length_strip_le)
  with assms(1) j have "int (length (joined (sentences_of text))) \<le> chunk_size dp + 1" by simp
  from split_text_fits [OF this] j show ?thesis by simp
qed

text \<open>The text \<open>" A. B "\<close> of six characters with \<open>chunk_size = 6\<close>.\<close>

theorem split_text_single_chunk_witness:
  "int (length [32, 65, 46, 32, 66, 32 :: nat]) \<le> chunk_size \<lparr>chunk_size = 6, chunk_overlap = 0\<rparr> \<and>
   strip [32, 65, 46, 32, 66, 32] \<noteq> [] \<and>
   single_spaced (strip [32, 65, 46, 32, 66, 32]) \<and>
   split_text \<lparr>chunk_size = 6, chunk_overlap = 0\<rparr> [32, 65, 46, 32, 66, 32] = [[65, 46, 32, 66]]"
proof -
  have s: "strip [32, 65, 46, 32, 66, 32] = [65, 46, 32, 66]"
    by (simp add: strip_def is_space_def)
  have h1: "int (length [32, 65, 46, 32, 66, 32 :: nat]) \<le> chunk_size \<lparr>chunk_size = 6, chunk_overlap = 0\<rparr>"
    by simp
  have h2: "strip [32, 65, 46, 32, 66, 32] \<noteq> []" by (simp add: s)
  have h3: "single_spaced (strip [32, 65, 46, 32, 66, 32])"
    by (simp add: s is_mark_def is_space_def)
  from split_text_single_chunk [OF h1 h2 h3] h1 h2 h3 s show ?thesis by simp
qed

text \<open>
  C3 as the specification states it fails. The text \<open>A.B\<close> has three characters, no more
  than \<open>chunk_size = 3\<close>, yet it is split after the full stop and the two sentences, joined
  by a space, no longer fit: there are two chunks. With a larger \<open>chunk_size\<close> there is one
  chunk, \<open>A. B\<close>, which is not the content. An empty document yields no chunk at all.
\<close>

theorem split_text_short_counterexample:
  "int (length [65, 46, 66 :: nat]) \<le> chunk_size \<lparr>chunk_size = 3, chunk_overlap = 0\<rparr> \<and>
   split_text \<lparr>chunk_size = 3, chunk_overlap = 0\<rparr> [65, 46, 66] = [[65, 46], [66]] \<and>
   split_text \<lparr>chunk_size = 30, chunk_overlap = 0\<rparr> [65, 46, 66] = [[65, 46, 32, 66]] \<and>
   split_text \<lparr>chunk_size = 30, chunk_overlap = 0\<rparr> [] = []"
  by (simp add: split_text_def is_mark_def is_space_def strip_def seed_chunk_def)

section \<open>Search\<close>

lemma search_loop_spec:
  assumes "search_loop cs found acc = Inr results"
  shows "length results \<le> length acc + length found \<and>
         (\<forall>r \<in> set results. r \<in> set acc \<or>
            (\<exists>(score, idx) \<in> set found. idx < int (length cs) \<and> similarity_score r = score \<and>
               (0 \<le> idx \<longrightarrow> hit r = cs ! nat idx)))"
  using assms
proof (induction cs found acc rule: search_loop.induct)
  case (1 cs results)
  then show ?case by simp
next
  case (2 cs score idx rest acc)
  show ?case
  proof (cases "idx < int (length cs)")
    case True
    with "2.prems" obtain chunk_info where got: "py_index cs idx = Inr chunk_info"
      and run: "search_loop cs rest (acc @ [\<lparr>hit = chunk_info, similarity_score = score\<rparr>]) = Inr results"
      by (auto split: sum.splits)
    from got have pos: "0 \<le> idx \<longrightarrow> chunk_info = cs ! nat idx"
      by (auto simp: py_index_def Let_def split: if_splits)
    from "2.IH"(1) [OF True got run] True pos show ?thesis by fastforce
  next
    case False
    with "2.prems" have run: "search_loop cs rest acc = Inr results" by simp
    from "2.IH"(2) [OF False run] show ?thesis by fastforce
  qed
qed

lemma search_loop_length:
  "search_loop cs found acc = Inr results \<Longrightarrow> length results \<le> length acc + length found"
  using search_loop_spec [of cs found acc results] by simp

lemma search_loop_exact:
  assumes "\<forall>(score, idx) \<in> set found. 0 \<le> idx"
  shows "search_loop cs found acc = Inr (acc @ as_results cs (in_range cs found))"
  using assms
proof (induction found arbitrary: acc)
  case Nil
  then show ?case by (simp add: as_results_def in_range_def)
next
  case (Cons a found)
  obtain score idx where a: "a = (score, idx)" by (cases a)
  from Cons.prems a have pos: "0 \<le> idx" and rest: "\<forall>(score, idx) \<in> set found. 0 \<le> idx"
    by auto
  show ?case
  proof (cases "idx < int (length cs)")
    case True
    with pos have "py_index cs idx = Inr (cs ! nat idx)" by (simp add: py_index_def)
    with True a Cons.IH [OF rest] show ?thesis by (simp add: as_results_def in_range_def)
  next
    case False
    with a Cons.IH [OF rest] show ?thesis by (simp add: as_results_def in_range_def)
  qed
qed

lemma in_range_distinct_length:
  assumes "\<forall>(score, idx) \<in> set found. 0 \<le> idx" and "distinct (map snd found)"
  shows "length (in_range cs found) \<le> length cs"
proof -
  let ?labels = "map snd (in_range cs found)"
  have d: "distinct ?labels"
    using assms(2) unfolding in_range_def by (rule distinct_map_filter)
  have "set ?labels \<subseteq> {0..<int (length cs)}"
    using assms(1) by (auto simp: in_range_def)
  then have "card (set ?labels) \<le> card {0..<int (length cs)}"
    by (intro card_mono) simp_all
  moreover from distinct_card [OF d] have "card (set ?labels) = length ?labels" .
  ultimately have "length ?labels \<le> length cs" by simp
  then show ?thesis by simp
qed

text \<open>
  The flat index answers with exactly \<open>k\<close> pairs, and as long as \<open>k\<close> is at most the
  number of stored vectors their positions are distinct positions of stored vectors:
  padding, and with it a negative position, occurs only beyond that.
\<close>

lemma flat_ip_search_answer:
  assumes "flat_ip_search ix q k = Inr found"
  shows "length found = nat k"
    and "nat k \<le> length (vectors ix) \<Longrightarrow>
           (\<forall>(score, idx) \<in> set found. 0 \<le> idx \<and> idx < int (length (vectors ix))) \<and>
           distinct (map snd found)"
proof -
  let ?n = "length (vectors ix)"
  let ?scored = "zip (map (inner q) (vectors ix)) (map int [0..<?n])"
  let ?ranked = "sort_key (\<lambda>(score, label). - score) ?scored"
  let ?best = "take (nat k) ?ranked"
  from assms have found: "found = ?best @ replicate (nat k - length ?best) (missing_score, - 1)"
    by (simp add: flat_ip_search_def Let_def split: if_splits)
  have len: "length ?ranked = ?n" by simp
  then have "length ?best = min (nat k) ?n" by simp
  with found show "length found = nat k" by simp
  assume k: "nat k \<le> ?n"
  with len have best: "found = ?best" unfolding found by simp
  have labels: "map snd ?scored = map int [0..<?n]" by (simp add: map_snd_zip)
  have "distinct (map snd ?scored)" unfolding labels by (simp add: distinct_map inj_on_def)
  then have "distinct ?scored \<and> inj_on snd (set ?scored)" by (simp only: distinct_map)
  then have "distinct ?ranked \<and> inj_on snd (set ?ranked)" by simp
  then have "distinct (map snd ?ranked)" by (simp only: distinct_map)
  then have "distinct (take (nat k) (map snd ?ranked))" by (rule distinct_take)
  then have d: "distinct (map snd found)" unfolding best by (simp add: take_map)
  have "set found \<subseteq> set ?scored" unfolding best using set_take_subset [of "nat k" ?ranked] by simp
  moreover have "\<forall>(score, idx) \<in> set ?scored. 0 \<le> idx \<and> idx < int ?n"
    by (auto dest!: set_zip_rightD)
  ultimately have "\<forall>(score, idx) \<in> set found. 0 \<le> idx \<and> idx < int ?n" by blast
  with d show "(\<forall>(score, idx) \<in> set found. 0 \<le> idx \<and> idx < int ?n) \<and> distinct (map snd found)"
    by simp
qed

text \<open>
  C2, as the code has it. On a built index, with the query embedded, \<open>search\<close> hands
  \<open>top_k\<close> to the lookup as it is (nothing raises it to 1), and a failure of the lookup
  is the failure of \<open>search\<close>. When the lookup answers with at most \<open>top_k\<close> pairs, a
  search that returns has at most \<open>top_k\<close> results. When moreover no position in the
  answer is negative, \<open>search\<close> does return, with exactly the pairs whose position is
  below the number of stored chunks, in order, each as the stored chunk at its position:
  a position beyond the stored chunks is left out, not an error, and for distinct
  positions there are at most \<open>min(top_k, chunk count)\<close> results. An answer with a
  negative position is not spoken of.
\<close>

theorem search_results_bounded:
  assumes "index vs = Some ix" and "model vs = Some encode"
    and "encode [query] = Inr (Arr2 dq (q # qs))"
  shows "(\<forall>e. index_search lib ix (normalize_L2 lib q) top_k = Inl e \<longrightarrow>
            search (Some lib) vs query top_k = Inl e) \<and>
         (\<forall>found. index_search lib ix (normalize_L2 lib q) top_k = Inr found \<and>
                  length found \<le> nat top_k \<longrightarrow>
            (\<forall>results. search (Some lib) vs query top_k = Inr results \<longrightarrow>
                 length results \<le> nat top_k) \<and>
            ((\<forall>(score, idx) \<in> set found. 0 \<le> idx) \<longrightarrow>
               search (Some lib) vs query top_k =
                 Inr (as_results (chunks vs) (in_range (chunks vs) found)) \<and>
               (distinct (map snd found) \<longrightarrow>
                  length (as_results (chunks vs) (in_range (chunks vs) found))
                    \<le> min (nat top_k) (length (chunks vs)))))"
proof (intro conjI allI impI)
  fix e assume "index_search lib ix (normalize_L2 lib q) top_k = Inl e"
  with assms show "search (Some lib) vs query top_k = Inl e" by (simp add: search_def)
next
  fix found results
  assume f: "index_search lib ix (normalize_L2 lib q) top_k = Inr found \<and> length found \<le> nat top_k"
    and r: "search (Some lib) vs query top_k = Inr results"
  from assms f r have "search_loop (chunks vs) found [] = Inr results" by (simp add: search_def)
  from search_loop_length [OF this] f show "length results \<le> nat top_k" by simp
next
  fix found
  assume f: "index_search lib ix (normalize_L2 lib q) top_k = Inr found \<and> length found \<le> nat top_k"
    and pos: "\<forall>(score, idx) \<in> set found. 0 \<le> idx"
  from assms f have "search (Some lib) vs query top_k = search_loop (chunks vs) found []"
    by (simp add: search_def)
  with search_loop_exact [OF pos, of "chunks vs" "[]"]
  show "search (Some lib) vs query top_k = Inr (as_results (chunks vs) (in_range (chunks vs) found))"
    by simp
next
  fix found
  assume f: "index_search lib ix (normalize_L2 lib q) top_k = Inr found \<and> length found \<le> nat top_k"
    and pos: "\<forall>(score, idx) \<in> set found. 0 \<le> idx"
    and d: "distinct (map snd found)"
  have "length (in_range (chunks vs) found) \<le> length found" by (simp add: in_range_def)
  with f in_range_distinct_length [OF pos d, of "chunks vs"]
  show "length (as_results (chunks vs) (in_range (chunks vs) found)) \<le> min (nat top_k) (length (chunks vs))"
    by (simp add: as_results_def)
qed

text \<open>
  The store out of step, asked for two results: the lookup answers with the positions
  0 and 1, and position 1, beyond the one stored chunk, is left out. Asked for none, the
  lookup's assertion fails.
\<close>

theorem search_results_bounded_witness:
  "search (Some faiss_flat) store_mismatch [66] 2 = Inr [\<lparr>hit = chunk0, similarity_score = 1\<rparr>] \<and>
   length [\<lparr>hit = chunk0, similarity_score = 1\<rparr>] \<le> min (nat 2) (length (chunks store_mismatch)) \<and>
   search (Some faiss_flat) store_mismatch [66] 0 = Inl AssertionError"
proof -
  let ?found = "[(1, 0), (1, 1)] :: (real \<times> int) list"
  have i: "index store_mismatch = Some \<lparr>dim = 1, vectors = [[1], [1]]\<rparr>"
    and m: "model store_mismatch = Some unit_encoder"
    by (simp_all add: store_mismatch_def)
  have e: "unit_encoder [[66]] = Inr (Arr2 1 ([1] # []))" by (simp add: unit_encoder_def)
  note inst = search_results_bounded [OF i m e, of faiss_flat]
  have n: "normalize_L2 faiss_flat [1] = [1]"
    by (simp add: faiss_flat_def l2_normalize_def inner_def)
  have look: "index_search faiss_flat \<lparr>dim = 1, vectors = [[1], [1]]\<rparr> (normalize_L2 faiss_flat [1]) 2 = Inr ?found"
    unfolding n by (simp add: faiss_flat_def flat_ip_search_def inner_def numeral_2_eq_2)
  have len: "length ?found \<le> nat 2" by simp
  have pos: "\<forall>(score, idx) \<in> set ?found. 0 \<le> idx" by simp
  have d: "distinct (map snd ?found)" by simp
  have ev: "as_results (chunks store_mismatch) (in_range (chunks store_mismatch) ?found) =
      [\<lparr>hit = chunk0, similarity_score = 1\<rparr>]"
    by (simp add: as_results_def in_range_def store_mismatch_def)
  from inst [of 2] look len pos d
  have a: "search (Some faiss_flat) store_mismatch [66] 2 =
             Inr (as_results (chunks store_mismatch) (in_range (chunks store_mismatch) ?found))"
    and b: "length (as_results (chunks store_mismatch) (in_range (chunks store_mismatch) ?found))
             \<le> min (nat 2) (length (chunks store_mismatch))"
    by blast+
  have "index_search faiss_flat \<lparr>dim = 1, vectors = [[1], [1]]\<rparr> (normalize_L2 faiss_flat [1]) 0 = Inl AssertionError"
    by (simp add: faiss_flat_def flat_ip_search_def)
  with inst [of 0] have c: "search (Some faiss_flat) store_mismatch [66] 0 = Inl AssertionError"
    by blast
  from a b c show ?thesis unfolding ev by blast
qed

text \<open>
  C2 as the specification states it fails. The index holds one vector and one chunk;
  \<open>top_k = 3\<close> gives three results, more than \<open>min(top_k, index_size) = 1\<close>: the lookup pads
  its answer with the label \<open>-1\<close>, the bound check \<open>idx < len(self.chunks)\<close> lets \<open>-1\<close>
  through, and \<open>self.chunks[-1]\<close> is the last chunk. And \<open>top_k = 0\<close> is not raised to 1:
  it reaches the lookup, whose assertion fails.
\<close>

theorem search_bound_counterexample:
  "search (Some faiss_flat) store_built [66] 3 =
     Inr [\<lparr>hit = chunk0, similarity_score = 1\<rparr>,
          \<lparr>hit = chunk0, similarity_score = missing_score\<rparr>,
          \<lparr>hit = chunk0, similarity_score = missing_score\<rparr>] \<and>
   length (vectors (the (index store_built))) = 1 \<and>
   search (Some faiss_flat) store_built [66] 0 = Inl AssertionError"
  by (simp add: search_def store_built_def unit_encoder_def faiss_flat_def l2_normalize_def
      inner_def flat_ip_search_def py_index_def numeral_3_eq_3)

section \<open>Build, save and load\<close>

lemma path_join_distinct: "path_join p ''index.faiss'' \<noteq> path_join p ''chunks.pkl''"
  by (simp add: path_join_def)

lemma build_index_coupled:
  assumes rows: "\<forall>texts dimension rows. encode texts = Inr (Arr2 dimension rows) \<longrightarrow> length rows = length texts"
    and m: "model vs = Some encode"
    and b: "build_index (Some lib) vs cs = (vs1, Inr ())"
  shows "coupled lib encode vs1"
proof -
  from b m obtain dimension rows where e: "encode (map content cs) = Inr (Arr2 dimension rows)"
    and vs1: "vs1 = vs\<lparr>chunks := cs, index := Some \<lparr>dim = dimension, vectors = map (normalize_L2 lib) rows\<rparr>\<rparr>"
    by (auto simp: build_index_def Let_def split: sum.splits ndarray.splits)
  from rows e have "length rows = length cs" by fastforce
  with e vs1 show ?thesis by (simp add: coupled_def)
qed

lemma save_then_load:
  assumes s: "save_index (Some lib) vs fs p = (fs1, Inr ())"
  shows "\<exists>ix. index vs = Some ix \<and>
           load_index (Some lib) vs0 fs1 p = (vs0\<lparr>index := Some ix, chunks := chunks vs\<rparr>, Inr ())"
proof -
  let ?ip = "path_join p ''index.faiss''" and ?cp = "path_join p ''chunks.pkl''"
  from s obtain ix where ix: "index vs = Some ix"
    and fs1: "fs1 = fs\<lparr>files := (files fs)(?ip \<mapsto> FaissFile ix, ?cp \<mapsto> PickleFile (chunks vs))\<rparr>"
    by (auto simp: save_index_def makedirs_def write_index_def pickle_dump_def
        split: option.splits if_splits write_fault.splits)
  have "load_index (Some lib) vs0 fs1 p = (vs0\<lparr>index := Some ix, chunks := chunks vs\<rparr>, Inr ())"
    unfolding fs1 using path_join_distinct [of p]
    by (simp add: load_index_def path_exists_def read_index_def pickle_load_def Let_def)
  with ix show ?thesis by blast
qed

text \<open>
  C1, as the code has it. For an embedding model that returns one row per text: a
  \<open>build_index\<close> that succeeds leaves the store coupled; \<open>save_index\<close> and \<open>search\<close> do not
  touch the in-memory store; and after a \<open>save_index\<close> of a coupled store that succeeds,
  \<open>load_index\<close> from the same path succeeds, into any store, and restores the same index
  and chunks, coupled again.
\<close>

theorem coupling_build_save_load:
  assumes "\<forall>texts dimension rows. encode texts = Inr (Arr2 dimension rows) \<longrightarrow> length rows = length texts"
    and "model vs = Some encode"
  shows "(build_index (Some lib) vs cs = (vs1, Inr ()) \<longrightarrow> coupled lib encode vs1) \<and>
         (coupled lib encode vs1 \<and> save_index (Some lib) vs1 fs p = (fs1, Inr ()) \<longrightarrow>
            (\<exists>vs2. load_index (Some lib) vs0 fs1 p = (vs2, Inr ()) \<and>
                   index vs2 = index vs1 \<and> chunks vs2 = chunks vs1 \<and> coupled lib encode vs2))"
proof (intro conjI impI)
  assume "build_index (Some lib) vs cs = (vs1, Inr ())"
  with assms show "coupled lib encode vs1" by (rule build_index_coupled)
next
  assume a: "coupled lib encode vs1 \<and> save_index (Some lib) vs1 fs p = (fs1, Inr ())"
  then obtain ix where ix: "index vs1 = Some ix"
    and l: "load_index (Some lib) vs0 fs1 p = (vs0\<lparr>index := Some ix, chunks := chunks vs1\<rparr>, Inr ())"
    using save_then_load by blast
  from a ix have "coupled lib encode (vs0\<lparr>index := Some ix, chunks := chunks vs1\<rparr>)"
    by (auto simp: coupled_def split: sum.splits ndarray.splits)
  with l ix show "\<exists>vs2. load_index (Some lib) vs0 fs1 p = (vs2, Inr ()) \<and>
                   index vs2 = index vs1 \<and> chunks vs2 = chunks vs1 \<and> coupled lib encode vs2"
    by simp
qed

text \<open>A store with no index is built from one chunk, saved to an empty disk and loaded.\<close>

theorem coupling_build_save_load_witness:
  "build_index (Some faiss_flat) store0 [chunk0] = (store_built, Inr ()) \<and>
   coupled faiss_flat unit_encoder store_built \<and>
   save_index (Some faiss_flat) store_built disk_empty ''s'' =
     (disk_empty\<lparr>files := [''s/index.faiss'' \<mapsto> FaissFile \<lparr>dim = 1, vectors = [[1]]\<rparr>,
                            ''s/chunks.pkl'' \<mapsto> PickleFile [chunk0]]\<rparr>, Inr ()) \<and>
   (\<exists>vs2. load_index (Some faiss_flat) store0
            (disk_empty\<lparr>files := [''s/index.faiss'' \<mapsto> FaissFile \<lparr>dim = 1, vectors = [[1]]\<rparr>,
                                   ''s/chunks.pkl'' \<mapsto> PickleFile [chunk0]]\<rparr>) ''s'' = (vs2, Inr ()) \<and>
          index vs2 = index store_built \<and> chunks vs2 = chunks store_built \<and>
          coupled faiss_flat unit_encoder vs2)"
proof -
  let ?disk = "disk_empty\<lparr>files := [''s/index.faiss'' \<mapsto> FaissFile \<lparr>dim = 1, vectors = [[1]]\<rparr>,
                                     ''s/chunks.pkl'' \<mapsto> PickleFile [chunk0]]\<rparr>"
  have rows: "\<forall>texts dimension rows. unit_encoder texts = Inr (Arr2 dimension rows) \<longrightarrow>
                length rows = length texts"
    by (auto simp: unit_encoder_def)
  have m: "model store0 = Some unit_encoder" by (simp add: store0_def)
  have b: "build_index (Some faiss_flat) store0 [chunk0] = (store_built, Inr ())"
    by (simp add: build_index_def store0_def store_built_def unit_encoder_def faiss_flat_def
        l2_normalize_def inner_def)
  have s: "save_index (Some faiss_flat) store_built disk_empty ''s'' = (?disk, Inr ())"
    by (simp add: save_index_def path_join_def makedirs_def write_index_def pickle_dump_def
        disk_empty_def store_built_def)
  note all = coupling_build_save_load [OF rows m, of faiss_flat "[chunk0]" store_built disk_empty "''s''" ?disk store0]
  from all b have c: "coupled faiss_flat unit_encoder store_built" by blast
  with all s have "\<exists>vs2. load_index (Some faiss_flat) store0 ?disk ''s'' = (vs2, Inr ()) \<and>
          index vs2 = index store_built \<and> chunks vs2 = chunks store_built \<and>
          coupled faiss_flat unit_encoder vs2" by blast
  with b c s show ?thesis by blast
qed

text \<open>
  C1 as the specification states it fails on a cycle that fails partway. The store
  \<open>store1\<close> is coupled. A build from two chunks on which the model raises has already
  replaced the chunk list: two chunks, one vector. A load from a directory that holds
  the vector file and no chunk file has already replaced the index: two vectors, one
  chunk.
\<close>

theorem coupling_counterexample:
  "coupled faiss_flat picky_encoder store1 \<and>
   build_index (Some faiss_flat) store1 [chunk0, chunk1] =
     (store1\<lparr>chunks := [chunk0, chunk1]\<rparr>, Inl (ModelError [])) \<and>
   \<not> coupled faiss_flat picky_encoder (store1\<lparr>chunks := [chunk0, chunk1]\<rparr>) \<and>
   load_index (Some faiss_flat) store1 disk_index_only ''s'' =
     (store1\<lparr>index := Some \<lparr>dim = 1, vectors = [[1], [1]]\<rparr>\<rparr>,
      Inl (FileNotFoundError ''s/chunks.pkl'')) \<and>
   \<not> coupled faiss_flat picky_encoder (store1\<lparr>index := Some \<lparr>dim = 1, vectors = [[1], [1]]\<rparr>\<rparr>)"
proof -
  have "coupled faiss_flat picky_encoder store1"
    by (simp add: coupled_def store1_def picky_encoder_def unit_encoder_def faiss_flat_def
        l2_normalize_def inner_def chunk0_def)
  moreover have "build_index (Some faiss_flat) store1 [chunk0, chunk1] =
     (store1\<lparr>chunks := [chunk0, chunk1]\<rparr>, Inl (ModelError []))"
    by (simp add: build_index_def store1_def picky_encoder_def)
  moreover have "\<not> coupled faiss_flat picky_encoder (store1\<lparr>chunks := [chunk0, chunk1]\<rparr>)"
    by (simp add: coupled_def store1_def picky_encoder_def)
  moreover have "load_index (Some faiss_flat) store1 disk_index_only ''s'' =
     (store1\<lparr>index := Some \<lparr>dim = 1, vectors = [[1], [1]]\<rparr>\<rparr>,
      Inl (FileNotFoundError ''s/chunks.pkl''))"
    by (simp add: load_index_def path_join_def path_exists_def read_index_def pickle_load_def
        disk_index_only_def)
  moreover have "\<not> coupled faiss_flat picky_encoder
      (store1\<lparr>index := Some \<lparr>dim = 1, vectors = [[1], [1]]\<rparr>\<rparr>)"
    by (simp add: coupled_def store1_def picky_encoder_def unit_encoder_def)
  ultimately show ?thesis by blast
qed

text \<open>
  C5, as the code has it. \<open>build_index\<close> has no test for an empty chunk list. With FAISS
  present and the model set, a build from no chunks first replaces the chunk list by the
  empty list and then goes on as any build does: an exception of the model is passed on,
  a one-dimensional array raises the \<open>IndexError\<close> of \<open>shape[1]\<close>, and a two-dimensional
  array gives an index of its rows.
\<close>

theorem build_index_empty:
  assumes "model vs = Some encode"
  shows "build_index (Some lib) vs [] =
           (case encode [] of
              Inl e \<Rightarrow> (vs\<lparr>chunks := []\<rparr>, Inl e)
            | Inr (Arr1 v) \<Rightarrow> (vs\<lparr>chunks := []\<rparr>, Inl IndexError)
            | Inr (Arr2 dimension rows) \<Rightarrow>
                (vs\<lparr>chunks := [], index := Some \<lparr>dim = dimension, vectors = map (normalize_L2 lib) rows\<rparr>\<rparr>,
                 Inr ()))"
  using assms by (simp add: build_index_def split: sum.splits ndarray.splits)

theorem build_index_empty_witness:
  "build_index (Some faiss_flat) store0 [] =
     (store0\<lparr>chunks := [], index := Some \<lparr>dim = 1, vectors = []\<rparr>\<rparr>, Inr ())"
proof -
  have m: "model store0 = Some unit_encoder" by (simp add: store0_def)
  from build_index_empty [OF m, of faiss_flat] show ?thesis by (simp add: unit_encoder_def)
qed

text \<open>
  The empty-corpus failure the repository does have is the orchestrator's: with no
  document loaded, \<open>_build_vector_index\<close> raises its \<open>ValueError\<close> and never calls
  \<open>build_index\<close>; store and disk are as before.
\<close>

lemma build_vector_index_no_documents:
  "build_vector_index cfg faiss dp vs fs [] = ((vs, fs), Inl (ValueError NoDocumentsFound))"
  by (simp add: build_vector_index_def)

text \<open>
  C5 as the specification states it fails: with a model that, like
  \<open>SentenceTransformer.encode\<close>, returns an empty one-dimensional array for no texts, a
  build from no chunks on a store that held one chunk fails with the \<open>IndexError\<close> of
  \<open>embeddings.shape[1]\<close>, after the stored chunk list was emptied and with the old index
  still in place.
\<close>

theorem build_index_empty_counterexample:
  "build_index (Some faiss_flat)
     \<lparr>model = Some st_encoder, index = Some \<lparr>dim = 1, vectors = [[1]]\<rparr>, chunks = [chunk0]\<rparr> [] =
     (\<lparr>model = Some st_encoder, index = Some \<lparr>dim = 1, vectors = [[1]]\<rparr>, chunks = []\<rparr>,
      Inl IndexError)"
  by (simp add: build_index_def st_encoder_def)

text \<open>
  C6, as the code has it. \<open>load_index\<close> raises \<open>FileNotFoundError\<close> when the vector file is
  missing, leaving the store as it was, and when the chunk file is missing, after the
  index of the store was replaced by the one read. When both files are there and
  readable it succeeds whatever their two counts are: nothing compares them.
\<close>

theorem load_index_outcomes:
  "(files fs (path_join p ''index.faiss'') = None \<longrightarrow>
      load_index (Some lib) vs fs p = (vs, Inl (FileNotFoundError (path_join p ''index.faiss'')))) \<and>
   (files fs (path_join p ''index.faiss'') = Some (FaissFile ix) \<and>
    files fs (path_join p ''chunks.pkl'') = None \<longrightarrow>
      load_index (Some lib) vs fs p =
        (vs\<lparr>index := Some ix\<rparr>, Inl (FileNotFoundError (path_join p ''chunks.pkl'')))) \<and>
   (files fs (path_join p ''index.faiss'') = Some (FaissFile ix) \<and>
    files fs (path_join p ''chunks.pkl'') = Some (PickleFile cs) \<longrightarrow>
      load_index (Some lib) vs fs p = (vs\<lparr>index := Some ix, chunks := cs\<rparr>, Inr ()))"
  by (simp add: load_index_def path_exists_def read_index_def pickle_load_def Let_def)

theorem load_index_outcomes_witness:
  "load_index (Some faiss_flat) store0 disk_empty ''s'' =
     (store0, Inl (FileNotFoundError ''s/index.faiss'')) \<and>
   load_index (Some faiss_flat) store0 disk_index_only ''s'' =
     (store0\<lparr>index := Some \<lparr>dim = 1, vectors = [[1], [1]]\<rparr>\<rparr>, Inl (FileNotFoundError ''s/chunks.pkl'')) \<and>
   load_index (Some faiss_flat) store0 disk_old ''s'' =
     (store0\<lparr>index := Some \<lparr>dim = 1, vectors = [[1]]\<rparr>, chunks := [chunk0]\<rparr>, Inr ())"
proof -
  have j: "path_join ''s'' ''index.faiss'' = ''s/index.faiss''"
    "path_join ''s'' ''chunks.pkl'' = ''s/chunks.pkl''"
    by (simp_all add: path_join_def)
  have "files disk_empty (path_join ''s'' ''index.faiss'') = None"
    by (simp add: disk_empty_def)
  with load_index_outcomes [of disk_empty "''s''" faiss_flat store0]
  have a: "load_index (Some faiss_flat) store0 disk_empty ''s'' =
     (store0, Inl (FileNotFoundError ''s/index.faiss''))" by (simp add: j)
  have "files disk_index_only (path_join ''s'' ''index.faiss'') = Some (FaissFile \<lparr>dim = 1, vectors = [[1], [1]]\<rparr>)"
    "files disk_index_only (path_join ''s'' ''chunks.pkl'') = None"
    by (simp_all add: disk_index_only_def j)
  with load_index_outcomes [of disk_index_only "''s''" faiss_flat store0 "\<lparr>dim = 1, vectors = [[1], [1]]\<rparr>"]
  have b: "load_index (Some faiss_flat) store0 disk_index_only ''s'' =
     (store0\<lparr>index := Some \<lparr>dim = 1, vectors = [[1], [1]]\<rparr>\<rparr>, Inl (FileNotFoundError ''s/chunks.pkl''))"
    by (simp add: j)
  have "files disk_old (path_join ''s'' ''index.faiss'') = Some (FaissFile \<lparr>dim = 1, vectors = [[1]]\<rparr>)"
    "files disk_old (path_join ''s'' ''chunks.pkl'') = Some (PickleFile [chunk0])"
    by (simp_all add: disk_old_def j)
  with load_index_outcomes [of disk_old "''s''" faiss_flat store0 "\<lparr>dim = 1, vectors = [[1]]\<rparr>" "[chunk0]"]
  have c: "load_index (Some faiss_flat) store0 disk_old ''s'' =
     (store0\<lparr>index := Some \<lparr>dim = 1, vectors = [[1]]\<rparr>, chunks := [chunk0]\<rparr>, Inr ())"
    by (simp add: j)
  from a b c show ?thesis by blast
qed

text \<open>
  C6 as the specification states it fails: a directory whose vector file holds two
  vectors and whose chunk file holds one chunk is loaded without any error.
\<close>

theorem load_index_mismatch_counterexample:
  "load_index (Some faiss_flat) store0 disk_mismatch ''s'' =
     (store0\<lparr>index := Some \<lparr>dim = 1, vectors = [[1], [1]]\<rparr>, chunks := [chunk0]\<rparr>, Inr ()) \<and>
   length [[1], [1 :: real]] \<noteq> length [chunk0]"
  by (simp add: load_index_def path_join_def path_exists_def read_index_def pickle_load_def
      disk_mismatch_def)




section \<open>The retry loop\<close>

declare generate_loop.simps [simp del]

lemma attempt_once_retry:
  "request_exception http (post http ms n) = Some f \<Longrightarrow>
   attempt_once http ms n = Retry (RequestException f)"
  by (auto simp: request_exception_def attempt_once_def split: reply.splits body.splits if_splits)

lemma generate_loop_retry:
  assumes "attempt_once http ms n = Retry e" and "n < max_retries client"
  shows "generate_loop client http ms n =
           (if n = max_retries client - 1 then (Inl (ApiRequestFailed (max_retries client) e), n + 1)
            else generate_loop client http ms (n + 1))"
  using assms by (subst generate_loop.simps) simp

lemma generate_loop_return:
  assumes "attempt_once http ms n = Return s" and "n < max_retries client"
  shows "generate_loop client http ms n = (Inr s, n + 1)"
  using assms by (subst generate_loop.simps) simp

lemma generate_loop_raise:
  assumes "attempt_once http ms n = Raise e" and "n < max_retries client"
  shows "generate_loop client http ms n = (Inl e, n + 1)"
  using assms by (subst generate_loop.simps) simp

lemma attempt_once_good:
  assumes "post http ms n = Response status (Json \<lparr>res_choices = Some (Content s # cs), res_error = er\<rparr>)"
    and "\<not> (400 \<le> status \<and> status < 600)"
  shows "attempt_once http ms n = Return (strip s)"
  using assms by (simp add: attempt_once_def extract_content_def)

lemma attempt_once_malformed:
  assumes "post http ms n = Response status (Json result)"
    and "\<not> (400 \<le> status \<and> status < 600)"
    and "extract_content result = Inl e"
  shows "attempt_once http ms n =
           Raise (case res_error result of
                    Some error_object \<Rightarrow>
                      ApiReturnedError (case error_object of Some m \<Rightarrow> m | None \<Rightarrow> unknown_error)
                  | None \<Rightarrow> ApiParseFailed e)"
  using assms by (simp add: attempt_once_def split: option.splits)

lemma generate_loop_skip:
  assumes "\<forall>i. n \<le> i \<and> i < k \<longrightarrow> (\<exists>e. attempt_once http ms i = Retry e)"
    and "k < max_retries client" and "n \<le> k"
  shows "generate_loop client http ms n = generate_loop client http ms k"
  using assms
proof (induction "k - n" arbitrary: n)
  case 0
  then show ?case by simp
next
  case (Suc m)
  then have lt: "n < k" by simp
  with Suc.prems obtain e where e: "attempt_once http ms n = Retry e" by blast
  from lt Suc.prems have "n < max_retries client" "n \<noteq> max_retries client - 1" by simp_all
  with e have "generate_loop client http ms n = generate_loop client http ms (n + 1)"
    by (simp add: generate_loop_retry)
  also have "\<dots> = generate_loop client http ms k"
    using Suc.hyps(2) Suc.prems lt by (intro Suc.hyps(1)) auto
  finally show ?case .
qed

text \<open>
  C8, as the code has it. The client of \<open>new_client\<close> makes at most 3 attempts. Every
  \<open>RequestException\<close> is retried: a timeout, a failed connection, and every 4xx or 5xx
  status whatever the body says. After \<open>k < 3\<close> such failures: a response with a success
  status and a content returns it, stripped, having used \<open>k + 1\<close> attempts (3 when the
  first two failed); a third failure raises the error that reports 3 attempts and the
  last failure; and a response with a success status whose JSON has no usable content is
  raised at once, with the service's message when the JSON has an error object, and no
  further attempt is made.
\<close>

theorem retry_policy:
  assumes "k < 3" and "\<forall>i<k. request_exception http (post http ms i) \<noteq> None"
  shows "(post http ms k = Response status (Json \<lparr>res_choices = Some (Content s # cs), res_error = er\<rparr>) \<and>
          \<not> (400 \<le> status \<and> status < 600) \<longrightarrow>
            generate_response (new_client key) http ms = (Inr (strip s), k + 1)) \<and>
         (k = 2 \<and> request_exception http (post http ms 2) = Some f \<longrightarrow>
            generate_response (new_client key) http ms =
              (Inl (ApiRequestFailed 3 (RequestException f)), 3)) \<and>
         (post http ms k = Response status (Json result) \<and> \<not> (400 \<le> status \<and> status < 600) \<and>
          extract_content result = Inl e \<longrightarrow>
            generate_response (new_client key) http ms =
              (Inl (case res_error result of
                      Some error_object \<Rightarrow>
                        ApiReturnedError (case error_object of Some m \<Rightarrow> m | None \<Rightarrow> unknown_error)
                    | None \<Rightarrow> ApiParseFailed e), k + 1))"
proof -
  let ?c = "new_client key"
  have m: "max_retries ?c = 3" by (simp add: new_client_def)
  have "\<forall>i. 0 \<le> i \<and> i < k \<longrightarrow> (\<exists>e. attempt_once http ms i = Retry e)"
    using assms(2) attempt_once_retry by fastforce
  with assms(1) m have skip: "generate_loop ?c http ms 0 = generate_loop ?c http ms k"
    by (intro generate_loop_skip) simp_all
  from assms(1) m have k: "k < max_retries ?c" by simp
  show ?thesis
  proof (intro conjI impI)
    assume "post http ms k = Response status (Json \<lparr>res_choices = Some (Content s # cs), res_error = er\<rparr>) \<and>
          \<not> (400 \<le> status \<and> status < 600)"
    then have "attempt_once http ms k = Return (strip s)"
      by (intro attempt_once_good) blast+
    from generate_loop_return [OF this k] skip
    show "generate_response ?c http ms = (Inr (strip s), k + 1)"
      by (simp add: generate_response_def)
  next
    assume a: "k = 2 \<and> request_exception http (post http ms 2) = Some f"
    then have "attempt_once http ms k = Retry (RequestException f)"
      by (simp add: attempt_once_retry)
    from generate_loop_retry [OF this k] skip a m
    show "generate_response ?c http ms = (Inl (ApiRequestFailed 3 (RequestException f)), 3)"
      by (simp add: generate_response_def)
  next
    assume "post http ms k = Response status (Json result) \<and> \<not> (400 \<le> status \<and> status < 600) \<and>
          extract_content result = Inl e"
    then have "attempt_once http ms k =
           Raise (case res_error result of
                    Some error_object \<Rightarrow>
                      ApiReturnedError (case error_object of Some m \<Rightarrow> m | None \<Rightarrow> unknown_error)
                  | None \<Rightarrow> ApiParseFailed e)"
      by (intro attempt_once_malformed) blast+
    from generate_loop_raise [OF this k] skip
    show "generate_response ?c http ms =
              (Inl (case res_error result of
                      Some error_object \<Rightarrow>
                        ApiReturnedError (case error_object of Some m \<Rightarrow> m | None \<Rightarrow> unknown_error)
                    | None \<Rightarrow> ApiParseFailed e), k + 1)"
      by (simp add: generate_response_def)
  qed
qed

theorem retry_policy_witness:
  "generate_response (new_client ''k'') flaky [] = (Inr [79, 75], 3) \<and>
   generate_response (new_client ''k'') down [] =
     (Inl (ApiRequestFailed 3 (RequestException (HTTPError 500))), 3) \<and>
   generate_response (new_client ''k'') refusing [] = (Inl (ApiReturnedError [110, 111]), 1)"
proof -
  have k2: "(2::nat) < 3" and k0: "(0::nat) < 3" by simp_all
  have f: "\<forall>i<2. request_exception flaky (post flaky [] i) \<noteq> None"
    by (simp add: flaky_def request_exception_def)
  have d: "\<forall>i<2. request_exception down (post down [] i) \<noteq> None"
    by (simp add: down_def request_exception_def)
  have r: "\<forall>i<0. request_exception refusing (post refusing [] i) \<noteq> None" by simp
  have "post flaky [] 2 = Response 200 (Json \<lparr>res_choices = Some (Content [32, 79, 75, 32] # []), res_error = None\<rparr>)"
    by (simp add: flaky_def ok_result_def)
  with retry_policy [OF k2 f, of 200 "[32, 79, 75, 32]" "[]" None "''k''"]
  have a: "generate_response (new_client ''k'') flaky [] = (Inr [79, 75], 3)"
    by (simp add: strip_def is_space_def)
  have "request_exception down (post down [] 2) = Some (HTTPError 500)"
    by (simp add: down_def request_exception_def)
  with retry_policy [OF k2 d, of _ _ _ _ "''k''" "HTTPError 500"]
  have b: "generate_response (new_client ''k'') down [] =
     (Inl (ApiRequestFailed 3 (RequestException (HTTPError 500))), 3)" by simp
  have "post refusing [] 0 = Response 200 (Json \<lparr>res_choices = None, res_error = Some (Some [110, 111])\<rparr>)"
    "extract_content \<lparr>res_choices = None, res_error = Some (Some [110, 111])\<rparr> = Inl (ValueError ResponseFormatAbnormal)"
    by (simp_all add: refusing_def extract_content_def)
  with retry_policy [OF k0 r, of 200 _ _ _ "''k''" _ "\<lparr>res_choices = None, res_error = Some (Some [110, 111])\<rparr>" "ValueError ResponseFormatAbnormal"]
  have c: "generate_response (new_client ''k'') refusing [] = (Inl (ApiReturnedError [110, 111]), 1)"
    by simp
  from a b c show ?thesis by blast
qed

text \<open>
  C8 as the specification states it fails: an explicit error payload that comes with the
  status 401 is not surfaced at once; the status alone decides, the request is made three
  times and the error raised carries the status, not the service's message. With
  requests 2.27 or later the same holds for a body that cannot be parsed as JSON.
\<close>

theorem retry_policy_counterexample:
  "generate_response (new_client ''k'') unauthorized [] =
     (Inl (ApiRequestFailed 3 (RequestException (HTTPError 401))), 3) \<and>
   generate_response (new_client ''k'') garbled [] =
     (Inl (ApiRequestFailed 3 (RequestException JSONDecode)), 3)"
  by (simp add: generate_response_def generate_loop.simps new_client_def attempt_once_def
      unauthorized_def garbled_def)

section \<open>Asking a question\<close>

lemma build_context_Nil: "build_context refs = [] \<longleftrightarrow> refs = []"
  by (simp add: build_context_def enumerate_eq_zip)

lemma try_search_fails:
  assumes "vector_store rag = Some vs"
    and "search faiss vs q (top_k_or_default cfg top_k) = Inl e"
  shows "ask_question_try cfg faiss http rag q top_k inc = Inl e"
  using assms by (simp add: ask_question_try_def)

lemma try_generation_fails:
  assumes "vector_store rag = Some vs"
    and "search faiss vs q (top_k_or_default cfg top_k) = Inr refs"
    and "llm_client rag = Some client"
    and "fst (if refs \<noteq> [] \<and> inc then rag_chat client http q (build_context refs) None
              else chat client http (Text q) None None) = Inl e"
  shows "ask_question_try cfg faiss http rag q top_k inc = Inl e"
proof (cases "refs \<noteq> [] \<and> inc")
  case True
  with assms show ?thesis by (simp add: ask_question_try_def build_context_Nil)
next
  case False
  with assms show ?thesis by (auto simp: ask_question_try_def)
qed

lemma ask_question_caught:
  assumes "is_initialized rag" and "ask_question_try cfg faiss http rag q top_k inc = Inl e"
  shows "ask_question cfg faiss http rag q top_k inc = Inr (failure_response q e)"
  using assms by (simp add: ask_question_def)

text \<open>
  C9. \<open>ask_question\<close> always returns a response and never an exception. Before
  initialisation the response has \<open>success = False\<close>, the not-initialised notice and the
  error \<open>System not initialized\<close>. After it, whenever the \<open>try\<close> block is left by an
  exception \<open>e\<close>, in particular when \<open>search\<close> raises \<open>e\<close> or the generation call raises
  \<open>e\<close>, the response has \<open>success = False\<close>, the apology with \<open>str(e)\<close> as answer, and
  \<open>str(e)\<close> as error.
\<close>

theorem ask_question_never_raises:
  "\<exists>r. ask_question cfg faiss http rag q top_k inc = Inr r \<and>
       (\<not> is_initialized rag \<longrightarrow>
          success r = False \<and> answer r = NotInitializedNotice \<and> error r = Some SystemNotInitialized) \<and>
       (\<forall>e. is_initialized rag \<and> ask_question_try cfg faiss http rag q top_k inc = Inl e \<longrightarrow>
          success r = False \<and> answer r = Apology e \<and> error r = Some (ErrorStr e)) \<and>
       (\<forall>vs e. is_initialized rag \<and> vector_store rag = Some vs \<and>
          search faiss vs q (top_k_or_default cfg top_k) = Inl e \<longrightarrow>
          success r = False \<and> answer r = Apology e \<and> error r = Some (ErrorStr e)) \<and>
       (\<forall>vs refs client e. is_initialized rag \<and> vector_store rag = Some vs \<and>
          search faiss vs q (top_k_or_default cfg top_k) = Inr refs \<and> llm_client rag = Some client \<and>
          fst (if refs \<noteq> [] \<and> inc then rag_chat client http q (build_context refs) None
               else chat client http (Text q) None None) = Inl e \<longrightarrow>
          success r = False \<and> answer r = Apology e \<and> error r = Some (ErrorStr e))"
proof -
  have "\<exists>r. ask_question cfg faiss http rag q top_k inc = Inr r"
    by (cases "ask_question_try cfg faiss http rag q top_k inc") (simp_all add: ask_question_def)
  then obtain r where r: "ask_question cfg faiss http rag q top_k inc = Inr r" ..
  have ni: "success r = False \<and> answer r = NotInitializedNotice \<and> error r = Some SystemNotInitialized"
    if "\<not> is_initialized rag"
    using that r by (auto simp: ask_question_def not_initialized_response_def)
  have caught: "success r = False \<and> answer r = Apology e \<and> error r = Some (ErrorStr e)"
    if "is_initialized rag" "ask_question_try cfg faiss http rag q top_k inc = Inl e" for e
    using ask_question_caught [OF that] r by (auto simp: failure_response_def)
  have s: "success r = False \<and> answer r = Apology e \<and> error r = Some (ErrorStr e)"
    if "is_initialized rag" "vector_store rag = Some vs"
      "search faiss vs q (top_k_or_default cfg top_k) = Inl e" for vs e
    using that(1) try_search_fails [OF that(2,3)] by (rule caught)
  have g: "success r = False \<and> answer r = Apology e \<and> error r = Some (ErrorStr e)"
    if "is_initialized rag" "vector_store rag = Some vs"
      "search faiss vs q (top_k_or_default cfg top_k) = Inr refs" "llm_client rag = Some client"
      "fst (if refs \<noteq> [] \<and> inc then rag_chat client http q (build_context refs) None
               else chat client http (Text q) None None) = Inl e" for vs refs client e
    using that(1) try_generation_fails [OF that(2,3,4,5)] by (rule caught)
  from r ni caught s g show ?thesis by blast
qed

text \<open>
  An orchestrator that was never initialised; one whose store has no index, so that
  \<open>search\<close> raises; and one whose generation service is down.
\<close>

theorem ask_question_never_raises_witness:
  "(\<exists>r. ask_question cfg1 (Some faiss_flat) steady rag_new [81] None True = Inr r \<and>
        success r = False \<and> answer r = NotInitializedNotice \<and> error r = Some SystemNotInitialized) \<and>
   (\<exists>r. ask_question cfg1 (Some faiss_flat) steady rag_unbuilt [81] None True = Inr r \<and>
        success r = False \<and> answer r = Apology (RuntimeError IndexNotBuilt) \<and>
        error r = Some (ErrorStr (RuntimeError IndexNotBuilt))) \<and>
   (\<exists>r. ask_question cfg1 (Some faiss_flat) down rag_ready [81] None True = Inr r \<and>
        success r = False \<and>
        answer r = Apology (ApiRequestFailed 3 (RequestException (HTTPError 500))) \<and>
        error r = Some (ErrorStr (ApiRequestFailed 3 (RequestException (HTTPError 500)))))"
proof -
  have n: "\<not> is_initialized rag_new" by (simp add: rag_new_def)
  have a: "\<exists>r. ask_question cfg1 (Some faiss_flat) steady rag_new [81] None True = Inr r \<and>
        success r = False \<and> answer r = NotInitializedNotice \<and> error r = Some SystemNotInitialized"
    using ask_question_never_raises [of cfg1 "Some faiss_flat" steady rag_new "[81]" None True] n
    by blast
  have u: "is_initialized rag_unbuilt" "vector_store rag_unbuilt = Some store0"
    "search (Some faiss_flat) store0 [81] (top_k_or_default cfg1 None) = Inl (RuntimeError IndexNotBuilt)"
    by (simp_all add: rag_unbuilt_def store0_def search_def)
  have b: "\<exists>r. ask_question cfg1 (Some faiss_flat) steady rag_unbuilt [81] None True = Inr r \<and>
        success r = False \<and> answer r = Apology (RuntimeError IndexNotBuilt) \<and>
        error r = Some (ErrorStr (RuntimeError IndexNotBuilt))"
    using ask_question_never_raises [of cfg1 "Some faiss_flat" steady rag_unbuilt "[81]" None True] u
    by blast
  have t: "is_initialized rag_ready"
    "ask_question_try cfg1 (Some faiss_flat) down rag_ready [81] None True =
       Inl (ApiRequestFailed 3 (RequestException (HTTPError 500)))"
    by (simp_all add: ask_question_try_def rag_ready_def store_built_def search_def
        top_k_or_default_def cfg1_def unit_encoder_def faiss_flat_def l2_normalize_def inner_def
        flat_ip_search_def py_index_def build_context_def rag_chat_def chat_def truthy_def
        generate_response_def generate_loop.simps new_client_def attempt_once_def down_def)
  have c: "\<exists>r. ask_question cfg1 (Some faiss_flat) down rag_ready [81] None True = Inr r \<and>
        success r = False \<and>
        answer r = Apology (ApiRequestFailed 3 (RequestException (HTTPError 500))) \<and>
        error r = Some (ErrorStr (ApiRequestFailed 3 (RequestException (HTTPError 500))))"
    using ask_question_never_raises [of cfg1 "Some faiss_flat" down rag_ready "[81]" None True] t
    by blast
  from a b c show ?thesis by blast
qed

text \<open>
  C10. A \<open>top_k\<close> of 0 and an omitted \<open>top_k\<close> both stand for the configured default:
  \<open>ask_question\<close> does with them exactly what it does with
  \<open>top_k = MAX_RETRIEVAL_DOCS\<close>, so \<open>search\<close> is called with the default count and never
  with 0 on behalf of the caller.
\<close>

theorem top_k_zero_is_default:
  "ask_question cfg faiss http rag q (Some 0) inc = ask_question cfg faiss http rag q None inc \<and>
   ask_question cfg faiss http rag q (Some 0) inc =
     ask_question cfg faiss http rag q (Some (MAX_RETRIEVAL_DOCS cfg)) inc \<and>
   top_k_or_default cfg (Some 0) = MAX_RETRIEVAL_DOCS cfg \<and>
   top_k_or_default cfg None = MAX_RETRIEVAL_DOCS cfg"
  by (simp add: ask_question_def ask_question_try_def top_k_or_default_def)

text \<open>With the default 1, a \<open>top_k\<close> of 0 retrieves one reference.\<close>

theorem top_k_zero_is_default_witness:
  "ask_question cfg1 (Some faiss_flat) steady rag_ready [81] (Some 0) True =
     Inr \<lparr>success = True, question_echo = Some [81], answer = ModelAnswer [79, 75],
          references = Some [\<lparr>hit = chunk0, similarity_score = 1\<rparr>],
          context_used = Some [\<lparr>part_number = 1, part_source = ''a.txt'', part_content = [65],
                                part_score = 1\<rparr>],
          references_count = Some 1, error = None\<rparr>"
proof -
  have "ask_question cfg1 (Some faiss_flat) steady rag_ready [81] None True =
     Inr \<lparr>success = True, question_echo = Some [81], answer = ModelAnswer [79, 75],
          references = Some [\<lparr>hit = chunk0, similarity_score = 1\<rparr>],
          context_used = Some [\<lparr>part_number = 1, part_source = ''a.txt'', part_content = [65],
                                part_score = 1\<rparr>],
          references_count = Some 1, error = None\<rparr>"
    by (simp add: ask_question_def ask_question_try_def rag_ready_def store_built_def search_def
        top_k_or_default_def cfg1_def unit_encoder_def faiss_flat_def l2_normalize_def inner_def
        flat_ip_search_def py_index_def build_context_def rag_chat_def chat_def truthy_def
        generate_response_def generate_loop.simps new_client_def attempt_once_def steady_def
        ok_result_def extract_content_def strip_def is_space_def chunk0_def)
  with top_k_zero_is_default [of cfg1 "Some faiss_flat" steady rag_ready "[81]" True]
  show ?thesis by simp
qed

end
